theory Spec2Isabelle
  imports Complex_Main "HOL-Library.Word" "HOL-Library.Sublist" "HOL-Library.Multiset"
begin

unbundle bit_operations_syntax

section \<open>Discord IPC framing (package discord)\<close>

text \<open>
  A frame is \<open>[4-byte LE opcode][4-byte LE length][payload]\<close>.  Bytes are \<open>8 word\<close>,
  Go's \<open>uint32\<close> is \<open>32 word\<close>, and \<open>len\<close> of a slice is a \<open>nat\<close>.
\<close>

type_synonym byte = "8 word"
type_synonym Opcode = "32 word"

definition OpHandshake :: Opcode where "OpHandshake = 0"
definition OpFrame :: Opcode where "OpFrame = 1"
definition OpClose :: Opcode where "OpClose = 2"

definition frameHeaderSize :: nat where "frameHeaderSize = 8"

text \<open>\<open>MaxPayloadSize = 1 << 20\<close>.\<close>

definition MaxPayloadSize :: nat where "MaxPayloadSize = 2 ^ 20"

text \<open>
  The errors of the framing layer.  \<open>fmt.Errorf("%w: %d bytes (max %d)", ErrPayloadTooLarge, ...)\<close>
  wraps the sentinel, so \<open>errors.Is(err, ErrPayloadTooLarge)\<close> is the discriminator
  \<open>is_ErrPayloadTooLarge\<close>; the two read errors wrap what \<open>io.ReadFull\<close> returned.
\<close>

datatype io_error = EOF | ErrUnexpectedEOF

datatype frame_error =
    is_ErrPayloadTooLarge: ErrPayloadTooLarge nat nat
  | ReadingFrameHeader io_error
  | ReadingFramePayload io_error

text \<open>\<open>binary.LittleEndian.PutUint32\<close> and \<open>binary.LittleEndian.Uint32\<close>.\<close>

definition PutUint32 :: "32 word \<Rightarrow> byte list" where
  "PutUint32 v = [ucast v, ucast (drop_bit 8 v), ucast (drop_bit 16 v), ucast (drop_bit 24 v)]"

text \<open>
  Go reads \<open>b[0]\<close> to \<open>b[3]\<close> and panics on a shorter slice; both calls in
  \<open>DecodeFrame\<close> pass a four-byte slice of the eight-byte header.
\<close>

definition Uint32 :: "byte list \<Rightarrow> 32 word" where
  "Uint32 b = ucast (b ! 0) OR push_bit 8 (ucast (b ! 1)) OR push_bit 16 (ucast (b ! 2))
                OR push_bit 24 (ucast (b ! 3))"

text \<open>
  \<open>EncodeFrame\<close>: the frame is allocated with \<open>frameHeaderSize + len(payload)\<close> bytes and
  filled in three steps (opcode, length, payload), which is the concatenation below.
  \<open>uint32(len(payload))\<close> is \<open>of_nat\<close>, truncating as the conversion does.
\<close>

definition EncodeFrame :: "Opcode \<Rightarrow> byte list \<Rightarrow> frame_error + byte list" where
  "EncodeFrame opcode payload =
     (if length payload > MaxPayloadSize
      then Inl (ErrPayloadTooLarge (length payload) MaxPayloadSize)
      else Inr (PutUint32 opcode @ PutUint32 (of_nat (length payload)) @ payload))"

text \<open>
  An \<open>io.Reader\<close> over a byte stream: the list of chunks that successive \<open>Read\<close> calls
  will deliver (a \<open>Read\<close> into a buffer with room for \<open>n\<close> bytes returns at most \<open>n\<close>
  bytes of the first chunk), and \<open>io.EOF\<close> once the list is empty.

  \<open>io.ReadFull(reader, buf)\<close> with \<open>len(buf) = n\<close> loops until \<open>n\<close> bytes are read.
  With \<open>n = 0\<close> it returns without calling \<open>Read\<close>.  At the end of the stream it
  returns \<open>io.EOF\<close> if nothing was read and \<open>io.ErrUnexpectedEOF\<close> otherwise.
\<close>

type_synonym reader = "byte list list"

fun readLoop :: "nat \<Rightarrow> byte list \<Rightarrow> reader \<Rightarrow> (io_error + byte list) \<times> reader" where
  "readLoop n acc [] =
     (if n = 0 then (Inr acc, [])
      else (Inl (if acc = [] then EOF else ErrUnexpectedEOF), []))"
| "readLoop n acc (c # cs) =
     (if n = 0 then (Inr acc, c # cs)
      else if length c \<le> n then readLoop (n - length c) (acc @ c) cs
      else (Inr (acc @ take n c), drop n c # cs))"

definition ReadFull :: "nat \<Rightarrow> reader \<Rightarrow> (io_error + byte list) \<times> reader" where
  "ReadFull n r = readLoop n [] r"

text \<open>
  \<open>DecodeFrame\<close> returns the result together with the reader as it is left.  The
  length check comes before the payload buffer is made and before the second read.
\<close>

definition DecodeFrame :: "reader \<Rightarrow> (frame_error + Opcode \<times> byte list) \<times> reader" where
  "DecodeFrame r =
     (case ReadFull frameHeaderSize r of
        (Inl e, r1) \<Rightarrow> (Inl (ReadingFrameHeader e), r1)
      | (Inr header, r1) \<Rightarrow>
          (let opcode = Uint32 (take 4 header);
               len = Uint32 (take 4 (drop 4 header))
           in if unat len > MaxPayloadSize
              then (Inl (ErrPayloadTooLarge (unat len) MaxPayloadSize), r1)
              else (case ReadFull (unat len) r1 of
                      (Inl e, r2) \<Rightarrow> (Inl (ReadingFramePayload e), r2)
                    | (Inr payload, r2) \<Rightarrow> (Inr (opcode, payload), r2))))"


section \<open>Decimal formatting (\<open>strconv.FormatUint\<close>, the \<open>%d\<close> verb)\<close>

definition digit :: "nat \<Rightarrow> char" where
  "digit d = ''0123456789'' ! d"

fun FormatUint :: "nat \<Rightarrow> string" where
  "FormatUint n = (if n < 10 then [digit n]
                   else FormatUint (n div 10) @ [digit (n mod 10)])"

declare FormatUint.simps [simp del]

definition FormatInt :: "int \<Rightarrow> string" where
  "FormatInt i = (if i < 0 then CHR ''-'' # FormatUint (nat (- i)) else FormatUint (nat i))"

text \<open>The number a string of decimal digits denotes.\<close>

definition decimalValue :: "string \<Rightarrow> nat" where
  "decimalValue s = foldl (\<lambda>a c. 10 * a + (of_char c - 48)) 0 s"

section \<open>The IPC client (package discord, client.go)\<close>

text \<open>
  \<open>Client\<close> has the application id, the connection (\<open>nil\<close> when disconnected) and the
  \<open>uint64\<close> nonce counter.  The mutex is not modelled: every method below runs with
  \<open>c.mu\<close> held, so the calls are sequential.  The connection is any type \<open>'c\<close>; what
  \<open>conn.Write\<close>, \<open>conn.Close\<close>, \<open>json.Marshal\<close> and \<open>os.Getpid\<close> do is supplied by the
  environment record.  The command arguments are the pair of the \<open>pid\<close> and the
  \<open>activity\<close> entries of the Go map (\<open>None\<close> for a nil activity).
\<close>

record 'c Client =
  appID :: string
  conn :: "'c option"
  nonce :: "64 word"

record ('c, 'act) ipc_env =
  conn_Write :: "'c \<Rightarrow> byte list \<Rightarrow> string option \<times> 'c"
  conn_Close :: "'c \<Rightarrow> string option"
  json_Marshal :: "string \<Rightarrow> int \<times> 'act option \<Rightarrow> string \<Rightarrow> string + byte list"
  os_Getpid :: int

datatype client_error =
    ErrNotConnected
  | MarshalingCommand string
  | EncodingCommand frame_error
  | WritingCommand string
  | ClosingConn string

definition NewClient :: "string \<Rightarrow> 'c Client" where
  "NewClient app = \<lparr>appID = app, conn = None, nonce = 0\<rparr>"

text \<open>
  \<open>sendCommand\<close>.  After the connection check come \<open>c.nonce++\<close> and
  \<open>nonce := strconv.FormatUint(c.nonce, 10)\<close>; the command map, with \<open>cmd\<close>, \<open>args\<close> and
  that nonce, is marshalled, framed with \<open>OpFrame\<close> and written to the connection.
\<close>

definition sendCommand ::
  "('c, 'act) ipc_env \<Rightarrow> 'c Client \<Rightarrow> string \<Rightarrow> int \<times> 'act option
     \<Rightarrow> client_error option \<times> 'c Client" where
  "sendCommand env c cmd args =
     (case conn c of
        None \<Rightarrow> (Some ErrNotConnected, c)
      | Some k \<Rightarrow>
          (let c1 = c\<lparr>nonce := nonce c + 1\<rparr>;
               n = FormatUint (unat (nonce c1))
           in case json_Marshal env cmd args n of
                Inl e \<Rightarrow> (Some (MarshalingCommand e), c1)
              | Inr payload \<Rightarrow>
                  (case EncodeFrame OpFrame payload of
                     Inl e \<Rightarrow> (Some (EncodingCommand e), c1)
                   | Inr frame \<Rightarrow>
                       (case conn_Write env k frame of
                          (Some e, k') \<Rightarrow> (Some (WritingCommand e), c1\<lparr>conn := Some k'\<rparr>)
                        | (None, k') \<Rightarrow> (None, c1\<lparr>conn := Some k'\<rparr>)))))"

definition SetActivity ::
  "('c, 'act) ipc_env \<Rightarrow> 'c Client \<Rightarrow> 'act option \<Rightarrow> client_error option \<times> 'c Client" where
  "SetActivity env c activity = sendCommand env c ''SET_ACTIVITY'' (os_Getpid env, activity)"

definition ClearActivity ::
  "('c, 'act) ipc_env \<Rightarrow> 'c Client \<Rightarrow> client_error option \<times> 'c Client" where
  "ClearActivity env c = sendCommand env c ''SET_ACTIVITY'' (os_Getpid env, None)"

definition Connected :: "'c Client \<Rightarrow> bool" where
  "Connected c = (conn c \<noteq> None)"

text \<open>\<open>Close\<close>: a best-effort clear, whose error is dropped, then the connection is released.\<close>

definition Close :: "('c, 'act) ipc_env \<Rightarrow> 'c Client \<Rightarrow> client_error option \<times> 'c Client" where
  "Close env c =
     (case conn c of
        None \<Rightarrow> (None, c)
      | Some _ \<Rightarrow>
          (case sendCommand env c ''SET_ACTIVITY'' (os_Getpid env, None) of (_, c1) \<Rightarrow>
             (case conn c1 of
                None \<Rightarrow> (None, c1)
              | Some k \<Rightarrow> (map_option ClosingConn (conn_Close env k), c1\<lparr>conn := None\<rparr>))))"

text \<open>
  Successive calls of \<open>sendCommand\<close> on one client, each continuing from the client the
  previous call left, whatever it returned.
\<close>

fun sendAll ::
  "('c, 'act) ipc_env \<Rightarrow> 'c Client \<Rightarrow> (string \<times> int \<times> 'act option) list \<Rightarrow> 'c Client" where
  "sendAll env c [] = c"
| "sendAll env c ((cmd, args) # rest) = sendAll env (snd (sendCommand env c cmd args)) rest"

section \<open>The change watcher's event channel (package session, watcher.go)\<close>

text \<open>
  A buffered Go channel: its capacity and the values waiting in the buffer.  A send with
  no receiver ready proceeds when the buffer has room; otherwise the sending goroutine
  blocks, which is \<open>None\<close> here.  Channel operations are atomic, so calls made from
  several goroutines are a sequence of calls.
\<close>

record 'a chan =
  cap :: nat
  buf :: "'a list"

definition make_chan :: "nat \<Rightarrow> 'a chan" where
  "make_chan n = \<lparr>cap = n, buf = []\<rparr>"

definition chan_send :: "'a \<Rightarrow> 'a chan \<Rightarrow> 'a chan option" where
  "chan_send v ch = (if length (buf ch) < cap ch then Some (ch\<lparr>buf := buf ch @ [v]\<rparr>) else None)"

text \<open>
  The watcher.  \<open>fsw\<close> says whether the fsnotify watcher is set, \<open>done_closed\<close> whether
  \<open>done\<close> has been closed; \<open>pollInterval\<close> is in nanoseconds, as \<open>time.Duration\<close> is.
  The goroutines that \<open>NewDirWatcher\<close> starts are the callers of \<open>notify\<close>.
\<close>

record Watcher =
  path :: string
  events :: "unit chan"
  done_closed :: bool
  fsw :: bool
  polling :: bool
  pollInterval :: nat

text \<open>What fsnotify does on this machine: whether \<open>NewWatcher\<close> and \<open>Add\<close> fail.\<close>

record fsnotify_env =
  NewWatcher_fails :: bool
  Add_fails :: "string \<Rightarrow> bool"

definition NewDirWatcher :: "fsnotify_env \<Rightarrow> string \<Rightarrow> Watcher" where
  "NewDirWatcher fs dir =
     (let w = \<lparr>path = dir, events = make_chan 1, done_closed = False, fsw = False,
                polling = False, pollInterval = 2 * 1000000000\<rparr>
      in if NewWatcher_fails fs then w\<lparr>polling := True\<rparr>
         else if Add_fails fs dir then w\<lparr>fsw := False, polling := True\<rparr>
         else w\<lparr>fsw := True\<rparr>)"

text \<open>
  \<open>notify\<close> is a \<open>select\<close> with a send case and a \<open>default\<close> case: when the send
  cannot proceed the default case is taken and the call returns.  The result is \<open>None\<close>
  if the call blocks.
\<close>

definition notify :: "Watcher \<Rightarrow> Watcher option" where
  "notify w = (case chan_send () (events w) of
                 Some ch \<Rightarrow> Some (w\<lparr>events := ch\<rparr>)
               | None \<Rightarrow> Some w)"

text \<open>\<open>n\<close> consecutive calls of \<open>notify\<close>, with no receive in between.\<close>

fun notify_times :: "nat \<Rightarrow> Watcher \<Rightarrow> Watcher option" where
  "notify_times 0 w = Some w"
| "notify_times (Suc n) w = (case notify w of None \<Rightarrow> None | Some w' \<Rightarrow> notify_times n w')"

section \<open>JSON decoding into structs (\<open>encoding/json\<close>)\<close>

text \<open>
  A JSON document as \<open>json.Unmarshal\<close> sees it after the syntax check.  \<open>JInt i\<close> is a
  number literal with no fraction and no exponent, denoting \<open>i\<close>; \<open>JFloat\<close> is any other
  number literal (its text is kept).  Object members keep their order and duplicates.
\<close>

datatype json =
    JNull
  | JBool bool
  | JInt int
  | JFloat string
  | JString string
  | JArray "json list"
  | JObject "(string \<times> json) list"

datatype json_error = SyntaxError | UnmarshalTypeError string

text \<open>
  Decoding a value into a Go field of type \<open>int\<close>/\<open>int64\<close> (64 bits), \<open>string\<close> or
  \<open>bool\<close>: \<open>None\<close> is an \<open>UnmarshalTypeError\<close>.  (JSON \<open>null\<close> leaves a field as it is;
  the struct decoder below checks for it first.)
\<close>

definition decodeInt64 :: "json \<Rightarrow> 64 word option" where
  "decodeInt64 v =
     (case v of
        JInt i \<Rightarrow> (if - (2 ^ 63) \<le> i \<and> i < 2 ^ 63 then Some (word_of_int i) else None)
      | _ \<Rightarrow> None)"

definition decodeString :: "json \<Rightarrow> string option" where
  "decodeString v = (case v of JString x \<Rightarrow> Some x | _ \<Rightarrow> None)"

definition decodeBool :: "json \<Rightarrow> bool option" where
  "decodeBool v = (case v of JBool b \<Rightarrow> Some b | _ \<Rightarrow> None)"

text \<open>
  The field an object key binds to: the field with exactly that JSON name, otherwise the
  first field whose name is equal under the library's case folding \<open>foldName\<close>; a key that
  binds to no field is skipped.
\<close>

definition findField :: "(string \<Rightarrow> string) \<Rightarrow> string list \<Rightarrow> string \<Rightarrow> string option" where
  "findField foldName names key =
     (if key \<in> set names then Some key else find (\<lambda>n. foldName n = foldName key) names)"

text \<open>
  The members of an object are decoded in order.  A value of the wrong type leaves its
  field as it was and records the error; decoding goes on and the first error recorded is
  the one returned.
\<close>

fun decodeMembers ::
  "(string \<Rightarrow> string) \<Rightarrow> string list \<Rightarrow> (string \<Rightarrow> json \<Rightarrow> 's \<Rightarrow> 's option)
     \<Rightarrow> (string \<times> json) list \<Rightarrow> 's \<times> json_error option \<Rightarrow> 's \<times> json_error option" where
  "decodeMembers foldName names setf [] acc = acc"
| "decodeMembers foldName names setf ((k, v) # ms) (s, err) =
     (case findField foldName names k of
        None \<Rightarrow> decodeMembers foldName names setf ms (s, err)
      | Some f \<Rightarrow>
          (if v = JNull then decodeMembers foldName names setf ms (s, err)
           else (case setf f v s of
                   Some s' \<Rightarrow> decodeMembers foldName names setf ms (s', err)
                 | None \<Rightarrow>
                     decodeMembers foldName names setf ms
                       (s, if err = None then Some (UnmarshalTypeError f) else err))))"

text \<open>
  \<open>json.Unmarshal(data, &v)\<close> for a struct \<open>v\<close>: a syntax error for text that is not
  JSON (\<open>parse\<close> is the library's syntax check and scanner); \<open>null\<close> changes nothing; an
  object is decoded member by member; any other value is a type error.
\<close>

definition Unmarshal ::
  "(string \<Rightarrow> json option) \<Rightarrow> (string \<Rightarrow> string) \<Rightarrow> string list
     \<Rightarrow> (string \<Rightarrow> json \<Rightarrow> 's \<Rightarrow> 's option) \<Rightarrow> string \<Rightarrow> 's \<Rightarrow> json_error + 's" where
  "Unmarshal parse foldName names setf data s0 =
     (case parse data of
        None \<Rightarrow> Inl SyntaxError
      | Some JNull \<Rightarrow> Inr s0
      | Some (JObject ms) \<Rightarrow>
          (case decodeMembers foldName names setf ms (s0, None) of
             (s, None) \<Rightarrow> Inr s
           | (s, Some e) \<Rightarrow> Inl e)
      | Some _ \<Rightarrow> Inl (UnmarshalTypeError []))"

section \<open>The files and the log\<close>

text \<open>
  The world the program acts on: the files (path to contents) and the log records
  written so far through \<open>slog\<close> (level and message).
\<close>

record world =
  files :: "string \<rightharpoonup> string"
  logs :: "(string \<times> string) list"

definition slog :: "string \<Rightarrow> string \<Rightarrow> world \<Rightarrow> world" where
  "slog level msg w = w\<lparr>logs := logs w @ [(level, msg)]\<rparr>"

section \<open>Migrations (package migrate)\<close>

record Migration =
  mVersion :: "64 word"
  Description :: string
  Upgrade :: "string \<Rightarrow> string + string"

datatype migrate_error = MigrationFailed "64 word" string

text \<open>
  \<open>Run\<close> copies the migrations, sorts the copy with \<open>sort.Slice\<close> on the version, and
  goes through it in that order: for each migration whose version is above the version
  reached so far it writes the log record \<open>applying migration\<close> and then calls \<open>Upgrade\<close>.
  Versions are Go \<open>int\<close>s, compared as signed numbers.  It returns the data and the
  version reached (\<open>Inr\<close>), or on a failure the version reached and the error (\<open>Inl\<close>; the
  data returned is then \<open>nil\<close>).

  \<open>sort.Slice\<close> is not a stable sort: it returns the elements ordered by version, and
  the order it gives to migrations of equal version is its own.  Which of two such
  migrations comes first decides which of them is applied, so the sort is a parameter
  of \<open>Run\<close>; \<open>sortsByVersion\<close> is what the library promises of it.
\<close>

definition sortsByVersion :: "(Migration list \<Rightarrow> Migration list) \<Rightarrow> Migration list \<Rightarrow> bool" where
  "sortsByVersion sort_Slice migrations =
     (mset (sort_Slice migrations) = mset migrations
      \<and> sorted (map (\<lambda>m. sint (mVersion m)) (sort_Slice migrations)))"

fun runSorted ::
  "Migration list \<Rightarrow> string \<Rightarrow> 64 word \<Rightarrow> world
     \<Rightarrow> (64 word \<times> migrate_error + string \<times> 64 word) \<times> world" where
  "runSorted [] data version w = (Inr (data, version), w)"
| "runSorted (m # ms) data version w =
     (if version <s mVersion m
      then (case Upgrade m data of
              Inl e \<Rightarrow> (Inl (version, MigrationFailed (mVersion m) e),
                        slog ''INFO'' ''applying migration'' w)
            | Inr data' \<Rightarrow>
                runSorted ms data' (mVersion m) (slog ''INFO'' ''applying migration'' w))
      else runSorted ms data version w)"

definition Run ::
  "(Migration list \<Rightarrow> Migration list) \<Rightarrow> string \<Rightarrow> 64 word \<Rightarrow> Migration list \<Rightarrow> world
     \<Rightarrow> (64 word \<times> migrate_error + string \<times> 64 word) \<times> world" where
  "Run sort_Slice data fromVersion migrations w =
     runSorted (sort_Slice migrations) data fromVersion w"

definition NeedsMigration :: "64 word \<Rightarrow> 64 word \<Rightarrow> bool \<Rightarrow> Migration list \<Rightarrow> bool" where
  "NeedsMigration fileVersion currentVersion force migrations =
     (if fileVersion \<noteq> currentVersion then True
      else if force \<and> length migrations > 0 then True
      else list_ex (\<lambda>m. fileVersion <s mVersion m) migrations)"

section \<open>Session state (package session)\<close>

definition CurrentVersion :: "64 word" where "CurrentVersion = 1"

text \<open>
  \<open>var StateMigrations []MigrationEntry\<close>: nothing in the program registers a state
  migration (only tests append to the slice), so it is the empty list.
\<close>

definition StateMigrations :: "Migration list" where "StateMigrations = []"

text \<open>The state file record.  \<open>Version\<close> is a Go \<open>int\<close> (64 bits), the timestamps are \<open>int64\<close>.\<close>

record State =
  Version :: "64 word"
  SessionID :: string
  SessionStart :: "64 word"
  LastActivity :: "64 word"
  Project :: string
  Branch :: string
  CWD :: string
  GitRemoteURL :: string
  Client :: string
  Stopped :: bool
  ToolName :: string
  ToolTarget :: string
  ActiveFile :: string
  AgentState :: string
  PermissionMode :: string
  HookEvent :: string

text \<open>The zero value of \<open>State\<close> (\<open>var s State\<close>).\<close>

definition zeroState :: State where
  "zeroState =
     \<lparr>Version = 0, SessionID = [], SessionStart = 0, LastActivity = 0, Project = [],
      Branch = [], CWD = [], GitRemoteURL = [], Client = [], Stopped = False,
      ToolName = [], ToolTarget = [], ActiveFile = [], AgentState = [],
      PermissionMode = [], HookEvent = []\<rparr>"

text \<open>The JSON names of the fields of \<open>State\<close>, in declaration order, and the decoder of each.\<close>

definition stateFields :: "string list" where
  "stateFields =
     [''$version'', ''sessionId'', ''sessionStart'', ''lastActivity'', ''project'', ''branch'',
      ''cwd'', ''gitRemoteUrl'', ''client'', ''stopped'', ''toolName'', ''toolTarget'',
      ''activeFile'', ''agentState'', ''permissionMode'', ''hookEvent'']"

definition setStateField :: "string \<Rightarrow> json \<Rightarrow> State \<Rightarrow> State option" where
  "setStateField f v s =
     (if f = ''$version'' then map_option (\<lambda>x. s\<lparr>Version := x\<rparr>) (decodeInt64 v)
      else if f = ''sessionId'' then map_option (\<lambda>x. s\<lparr>SessionID := x\<rparr>) (decodeString v)
      else if f = ''sessionStart'' then map_option (\<lambda>x. s\<lparr>SessionStart := x\<rparr>) (decodeInt64 v)
      else if f = ''lastActivity'' then map_option (\<lambda>x. s\<lparr>LastActivity := x\<rparr>) (decodeInt64 v)
      else if f = ''project'' then map_option (\<lambda>x. s\<lparr>Project := x\<rparr>) (decodeString v)
      else if f = ''branch'' then map_option (\<lambda>x. s\<lparr>Branch := x\<rparr>) (decodeString v)
      else if f = ''cwd'' then map_option (\<lambda>x. s\<lparr>CWD := x\<rparr>) (decodeString v)
      else if f = ''gitRemoteUrl'' then map_option (\<lambda>x. s\<lparr>GitRemoteURL := x\<rparr>) (decodeString v)
      else if f = ''client'' then map_option (\<lambda>x. s\<lparr>Client := x\<rparr>) (decodeString v)
      else if f = ''stopped'' then map_option (\<lambda>x. s\<lparr>Stopped := x\<rparr>) (decodeBool v)
      else if f = ''toolName'' then map_option (\<lambda>x. s\<lparr>ToolName := x\<rparr>) (decodeString v)
      else if f = ''toolTarget'' then map_option (\<lambda>x. s\<lparr>ToolTarget := x\<rparr>) (decodeString v)
      else if f = ''activeFile'' then map_option (\<lambda>x. s\<lparr>ActiveFile := x\<rparr>) (decodeString v)
      else if f = ''agentState'' then map_option (\<lambda>x. s\<lparr>AgentState := x\<rparr>) (decodeString v)
      else if f = ''permissionMode'' then map_option (\<lambda>x. s\<lparr>PermissionMode := x\<rparr>) (decodeString v)
      else if f = ''hookEvent'' then map_option (\<lambda>x. s\<lparr>HookEvent := x\<rparr>) (decodeString v)
      else Some s)"

text \<open>The step of \<open>atomicfile.Write\<close> that failed.\<close>

datatype atomic_error = CreateTemp | WriteTemp | SyncTemp | CloseTemp | ChmodTemp | RenameTemp

text \<open>
  What the libraries and the operating system do: the JSON syntax check and scanner, the
  case folding of JSON keys, \<open>json.Marshal\<close> of a \<open>State\<close> (it cannot fail on a struct of
  strings, integers and booleans), which paths \<open>os.WriteFile\<close> cannot write, which step
  of \<open>atomicfile.Write\<close> fails for which path, \<open>filepath.Glob\<close> (\<open>None\<close> is
  \<open>ErrBadPattern\<close>), \<open>filepath.Join\<close>, and the order \<open>sort.Slice\<close> gives to a list of
  migrations.
\<close>

record session_env =
  json_parse :: "string \<Rightarrow> json option"
  json_foldName :: "string \<Rightarrow> string"
  json_Marshal_State :: "State \<Rightarrow> string"
  WriteFile_error :: "string \<Rightarrow> string option"
  atomicfile_error :: "string \<Rightarrow> atomic_error option"
  filepath_Glob :: "(string \<rightharpoonup> string) \<Rightarrow> string \<Rightarrow> string list option"
  filepath_Join :: "string \<Rightarrow> string \<Rightarrow> string"
  sort_Slice :: "Migration list \<Rightarrow> Migration list"

datatype state_error =
    ReadingStateFile
  | CorruptedStateFile string json_error
  | StateMigrationFailed migrate_error
  | UnmarshalMigratedState json_error
  | GlobStateFiles

text \<open>
  What \<open>ReadState\<close> returns, one constructor for each form of its \<open>return\<close> statements:
  \<open>nil, err\<close>; \<open>&s, nil\<close>; \<open>&s, err\<close> (the recovered state with the corruption error).
\<close>

datatype read_result =
    ReadFailed state_error
  | ReadOk State
  | ReadRecovered State state_error

fun result_state :: "read_result \<Rightarrow> State option" where
  "result_state (ReadFailed e) = None"
| "result_state (ReadOk s) = Some s"
| "result_state (ReadRecovered s e) = Some s"

fun result_error :: "read_result \<Rightarrow> state_error option" where
  "result_error (ReadFailed e) = Some e"
| "result_error (ReadOk s) = None"
| "result_error (ReadRecovered s e) = Some e"

text \<open>
  \<open>os.WriteFile\<close>: a write that fails leaves the files as they were.
  \<open>atomicfile.Write\<close> writes a temporary file beside the target and renames it over the
  target; when a step fails the temporary file is removed, so the files are as before.
\<close>

definition os_WriteFile :: "session_env \<Rightarrow> string \<Rightarrow> string \<Rightarrow> world \<Rightarrow> string option \<times> world" where
  "os_WriteFile env p data w =
     (case WriteFile_error env p of
        Some e \<Rightarrow> (Some e, w)
      | None \<Rightarrow> (None, w\<lparr>files := (files w)(p \<mapsto> data)\<rparr>))"

definition atomicfile_Write ::
  "session_env \<Rightarrow> string \<Rightarrow> string \<Rightarrow> world \<Rightarrow> atomic_error option \<times> world" where
  "atomicfile_Write env p data w =
     (case atomicfile_error env p of
        Some e \<Rightarrow> (Some e, w)
      | None \<Rightarrow> (None, w\<lparr>files := (files w)(p \<mapsto> data)\<rparr>))"

definition saveState :: "session_env \<Rightarrow> string \<Rightarrow> State \<Rightarrow> world \<Rightarrow> atomic_error option \<times> world" where
  "saveState env p s w = atomicfile_Write env p (json_Marshal_State env s) w"

definition UnmarshalState :: "session_env \<Rightarrow> string \<Rightarrow> State \<Rightarrow> json_error + State" where
  "UnmarshalState env data s0 =
     Unmarshal (json_parse env) (json_foldName env) stateFields setStateField data s0"

definition recoverCorruptedState ::
  "session_env \<Rightarrow> string \<Rightarrow> string \<Rightarrow> json_error \<Rightarrow> world \<Rightarrow> read_result \<times> world" where
  "recoverCorruptedState env p data parseErr w =
     (let w1 = slog ''WARN'' ''corrupted state file, backing up'' w;
          corruptedPath = p @ ''.corrupted'';
          w2 = (case os_WriteFile env corruptedPath data w1 of
                  (Some e, w') \<Rightarrow> slog ''WARN'' ''failed to write backup'' w'
                | (None, w') \<Rightarrow> w');
          s = zeroState\<lparr>Version := CurrentVersion\<rparr>;
          w3 = (case saveState env p s w2 of
                  (Some e, w') \<Rightarrow> slog ''WARN'' ''failed to save fresh state'' w'
                | (None, w') \<Rightarrow> w')
      in (ReadRecovered s (CorruptedStateFile corruptedPath parseErr), w3))"

definition applyMigrations ::
  "session_env \<Rightarrow> Migration list \<Rightarrow> State \<Rightarrow> string \<Rightarrow> world
     \<Rightarrow> (state_error + State) \<times> world" where
  "applyMigrations env migrations s data w =
     (if length migrations = 0
         \<or> \<not> NeedsMigration (Version s) CurrentVersion False migrations
      then (Inr s, w)
      else (case Run (sort_Slice env) data (Version s) migrations w of
              (Inl (_, e), w1) \<Rightarrow> (Inl (StateMigrationFailed e), w1)
            | (Inr (migrated, newVersion), w1) \<Rightarrow>
                (case UnmarshalState env migrated s of
                   Inl e \<Rightarrow> (Inl (UnmarshalMigratedState e), w1)
                 | Inr s' \<Rightarrow> (Inr (s'\<lparr>Version := newVersion\<rparr>), w1))))"

definition normalizeToCurrentVersion ::
  "session_env \<Rightarrow> State \<Rightarrow> string \<Rightarrow> string \<Rightarrow> world \<Rightarrow> State \<times> world" where
  "normalizeToCurrentVersion env s p data w =
     (let w1 = slog ''WARN'' ''future state version detected, normalizing'' w;
          bakPath = p @ ''.v'' @ FormatInt (sint (Version s)) @ ''.bak'';
          w2 = (case os_WriteFile env bakPath data w1 of
                  (Some e, w') \<Rightarrow> slog ''WARN'' ''failed to write backup'' w'
                | (None, w') \<Rightarrow> w');
          s' = s\<lparr>Version := CurrentVersion\<rparr>;
          w3 = (case saveState env p s' w2 of
                  (Some e, w') \<Rightarrow> slog ''WARN'' ''failed to save normalized state'' w'
                | (None, w') \<Rightarrow> w')
      in (s', w3))"

text \<open>
  \<open>ReadState\<close> with the registered migrations as a parameter, and \<open>ReadState\<close> itself,
  which runs with \<open>StateMigrations\<close>.  A path with no entry in \<open>files\<close> is a file that
  \<open>os.ReadFile\<close> cannot read.
\<close>

definition ReadStateWith ::
  "Migration list \<Rightarrow> session_env \<Rightarrow> string \<Rightarrow> world \<Rightarrow> read_result \<times> world" where
  "ReadStateWith migrations env p w =
     (case files w p of
        None \<Rightarrow> (ReadFailed ReadingStateFile, w)
      | Some data \<Rightarrow>
          (case UnmarshalState env data zeroState of
             Inl e \<Rightarrow> recoverCorruptedState env p data e w
           | Inr s0 \<Rightarrow>
               (let s1 = (if Version s0 = 0 then s0\<lparr>Version := 1\<rparr> else s0)
                in case applyMigrations env migrations s1 data w of
                     (Inl e, w1) \<Rightarrow> (ReadFailed e, w1)
                   | (Inr s2, w1) \<Rightarrow>
                       (if CurrentVersion <s Version s2
                        then (case normalizeToCurrentVersion env s2 p data w1 of
                                (s3, w') \<Rightarrow> (ReadOk s3, w'))
                        else (ReadOk s2, w1)))))"

definition ReadState :: "session_env \<Rightarrow> string \<Rightarrow> world \<Rightarrow> read_result \<times> world" where
  "ReadState env p w = ReadStateWith StateMigrations env p w"

text \<open>
  \<open>PeekVersion\<close> unmarshals into a struct whose only field is \<open>Version int\<close> with the
  JSON name \<open>$version\<close>; the struct is that one integer.
\<close>

datatype peek_error = PeekingVersion json_error

definition setPartialField :: "string \<Rightarrow> json \<Rightarrow> 64 word \<Rightarrow> 64 word option" where
  "setPartialField f v s = (if f = ''$version'' then decodeInt64 v else Some s)"

definition PeekVersion :: "session_env \<Rightarrow> string \<Rightarrow> peek_error + 64 word" where
  "PeekVersion env data =
     (case Unmarshal (json_parse env) (json_foldName env) [''$version''] setPartialField data 0 of
        Inl e \<Rightarrow> Inl (PeekingVersion e)
      | Inr v \<Rightarrow> (if v = 0 then Inr 1 else Inr v))"

section \<open>Multi-client state resolution (package main, \<open>findLatestState\<close>)\<close>

definition StateFile :: string where "StateFile = ''state.json''"

text \<open>
  The update of \<open>best\<close> in the loop:
  \<open>if best == nil || s.LastActivity > best.LastActivity { best = s }\<close>, a signed
  comparison of \<open>int64\<close> values.
\<close>

definition better :: "State option \<Rightarrow> State \<Rightarrow> State option" where
  "better best s =
     (case best of
        None \<Rightarrow> Some s
      | Some b \<Rightarrow> (if LastActivity b <s LastActivity s then Some s else Some b))"

text \<open>
  The loop over the matches: an unreadable file (\<open>nil\<close> state with an error) is skipped
  with a debug record; any other result, a recovered state included, competes with
  \<open>best\<close>.
\<close>

fun scanStates ::
  "session_env \<Rightarrow> string list \<Rightarrow> State option \<Rightarrow> world \<Rightarrow> State option \<times> world" where
  "scanStates env [] best w = (best, w)"
| "scanStates env (p # ps) best w =
     (case ReadState env p w of
        (ReadFailed e, w') \<Rightarrow>
          scanStates env ps best (slog ''DEBUG'' ''skipping unreadable state file'' w')
      | (ReadOk s, w') \<Rightarrow> scanStates env ps (better best s) w'
      | (ReadRecovered s e, w') \<Rightarrow> scanStates env ps (better best s) w')"

definition findLatestState :: "session_env \<Rightarrow> string \<Rightarrow> world \<Rightarrow> read_result \<times> world" where
  "findLatestState env dataDir w =
     (let pattern = filepath_Join env dataDir ''state.*.json''
      in case filepath_Glob env (files w) pattern of
           None \<Rightarrow> (ReadFailed GlobStateFiles, w)
         | Some matches \<Rightarrow>
             (case scanStates env matches None w of
                (Some best, w') \<Rightarrow> (ReadOk best, w')
              | (None, w') \<Rightarrow> ReadState env (filepath_Join env dataDir StateFile) w'))"

section \<open>Presence activity (package session)\<close>

text \<open>
  \<open>JSONLData\<close> (the token totals of the conversation log), the activity payload and the
  configuration of the presentation.  Counts are \<open>int64\<close>; \<open>IdleMinutes\<close> is a Go \<open>int\<close>
  (64 bits).  A cost is a \<open>float64\<close>, taken as a real number here: it is only compared
  with the threshold and with zero, and handed to the formatter.
\<close>

record JSONLData =
  Model :: string
  InputTokens :: "64 word"
  OutputTokens :: "64 word"
  CacheCreationTokens :: "64 word"
  CacheReadTokens :: "64 word"
  TurnCount :: "64 word"
  ToolUseCount :: "64 word"
  UniqueModels :: "string list"

record Timestamps =
  Start :: "64 word"

record Assets =
  LargeImage :: string
  LargeText :: string
  SmallImage :: string
  SmallText :: string

record Button =
  Label :: string
  URL :: string

text \<open>The field \<open>State\<close> of the payload is \<open>State'\<close> here, \<open>State\<close> being the state record.\<close>

record Activity =
  Details :: string
  State' :: string
  aTimestamps :: Timestamps
  aAssets :: Assets
  Buttons :: "Button list"

text \<open>
  \<open>ActivityConfig\<close>.  Its fields \<open>LargeImage\<close> and \<open>LargeText\<close> are \<open>cfgLargeImage\<close> and
  \<open>cfgLargeText\<close> here.
\<close>

record ActivityConfig =
  DetailsFormat :: string
  StateFormat :: string
  DetailsNoBranchFormat :: string
  StateNoCostFormat :: string
  CostFormat :: string
  TokenFormat :: string
  ModelFormat :: string
  ProjectName :: string
  IgnoredPatterns :: "string list"
  cfgLargeImage :: string
  cfgLargeText :: string
  ShowModelIcon :: bool
  ShowRepoButton :: bool
  RepoButtonLabel :: string
  CustomButtonLabel :: string
  CustomButtonURL :: string
  ShowCost :: bool
  ShowTokens :: bool
  ShowBranch :: bool
  TimestampMode :: string
  IdleMinutes :: "64 word"
  ModelTiers :: "string list"
  DefaultTierIcon :: string
  CostShowThreshold :: real
  TokensShowThreshold :: "64 word"
  IdleMode :: string
  IdleDetails :: string
  IdleState :: string

text \<open>\<open>templateVars\<close>; each field carries the prefix \<open>tv\<close>.\<close>

record templateVars =
  tvProject :: string
  tvBranch :: string
  tvModel :: string
  tvCost :: real
  tvTokens :: "64 word"
  tvTool :: string
  tvToolTarget :: string
  tvFile :: string
  tvAgentState :: string
  tvPermission :: string
  tvClient :: string
  tvInputTokens :: "64 word"
  tvOutputTokens :: "64 word"
  tvCacheTokens :: "64 word"
  tvTurns :: "64 word"
  tvGitOwner :: string
  tvGitRepo :: string
  tvDefaultModelFormat :: string
  tvDefaultCostFormat :: string
  tvDefaultTokenFormat :: string

text \<open>
  What the presentation takes from outside the functions modelled here: the clock
  (\<open>time.Now().Unix()\<close>), \<open>filepath.Match\<close> (\<open>None\<close> is \<open>ErrBadPattern\<close>),
  \<open>filepath.Base\<close>, \<open>Dir\<close> and \<open>Ext\<close>, \<open>fmt.Sprintf\<close> of one float, the formatters
  \<open>FormatTokenCount\<close>, \<open>config.FormatModelName\<close> and \<open>config.ClientDisplayName\<close>, and the
  submatches that \<open>gitRemoteRegex\<close> finds in a remote URL.
\<close>

record present_env =
  time_Now_Unix :: "64 word"
  filepath_Match :: "string \<Rightarrow> string \<Rightarrow> bool option"
  filepath_Base :: "string \<Rightarrow> string"
  filepath_Dir :: "string \<Rightarrow> string"
  filepath_Ext :: "string \<Rightarrow> string"
  fmt_Sprintf_float :: "string \<Rightarrow> real \<Rightarrow> string"
  FormatTokenCount :: "64 word \<Rightarrow> string \<Rightarrow> string"
  config_FormatModelName :: "string \<Rightarrow> string \<Rightarrow> string"
  config_ClientDisplayName :: "string \<Rightarrow> string"
  gitRemoteRegex_FindStringSubmatch :: "string \<Rightarrow> string list"

text \<open>\<open>matchesIgnorePattern\<close>: an invalid pattern is logged and skipped.\<close>

fun matchesIgnorePattern :: "present_env \<Rightarrow> string list \<Rightarrow> string \<Rightarrow> bool" where
  "matchesIgnorePattern env [] cwd = False"
| "matchesIgnorePattern env (pattern # patterns) cwd =
     (case filepath_Match env pattern cwd of
        None \<Rightarrow> matchesIgnorePattern env patterns cwd
      | Some matched \<Rightarrow> (if matched then True else matchesIgnorePattern env patterns cwd))"

text \<open>
  \<open>isIdle\<close>: \<open>cfg.IdleMinutes > 0 && time.Now().Unix()-lastActivity > int64(cfg.IdleMinutes)*60\<close>,
  in 64-bit two's complement arithmetic with signed comparisons.
\<close>

definition isIdle :: "present_env \<Rightarrow> ActivityConfig \<Rightarrow> 64 word \<Rightarrow> bool" where
  "isIdle env cfg lastActivity =
     (0 <s IdleMinutes cfg \<and> IdleMinutes cfg * 60 <s time_Now_Unix env - lastActivity)"

definition parseGitRemote :: "present_env \<Rightarrow> string \<Rightarrow> string \<times> string" where
  "parseGitRemote env url =
     (let m = gitRemoteRegex_FindStringSubmatch env url
      in if length m = 3 then (m ! 1, m ! 2) else ([], []))"

definition buildTemplateVars ::
  "present_env \<Rightarrow> State \<Rightarrow> ActivityConfig \<Rightarrow> real \<Rightarrow> 64 word \<Rightarrow> string
     \<Rightarrow> JSONLData option \<Rightarrow> templateVars" where
  "buildTemplateVars env s cfg cost totalTokens model jsonl =
     (let project = (if ProjectName cfg \<noteq> [] then ProjectName cfg else Project s);
          cost' = (if CostShowThreshold cfg > 0 \<and> cost < CostShowThreshold cfg then 0 else cost);
          totalTokens' = (if 0 <s TokensShowThreshold cfg \<and> totalTokens <s TokensShowThreshold cfg
                          then 0 else totalTokens);
          (gitOwner, gitRepo) = parseGitRemote env (GitRemoteURL s)
      in \<lparr>tvProject = project,
          tvBranch = Branch s,
          tvModel = model,
          tvCost = cost',
          tvTokens = totalTokens',
          tvTool = ToolName s,
          tvToolTarget = ToolTarget s,
          tvFile = ActiveFile s,
          tvAgentState = AgentState s,
          tvPermission = PermissionMode s,
          tvClient = config_ClientDisplayName env (Client s),
          tvInputTokens = (case jsonl of None \<Rightarrow> 0 | Some j \<Rightarrow> InputTokens j),
          tvOutputTokens = (case jsonl of None \<Rightarrow> 0 | Some j \<Rightarrow> OutputTokens j),
          tvCacheTokens =
            (case jsonl of None \<Rightarrow> 0 | Some j \<Rightarrow> CacheCreationTokens j + CacheReadTokens j),
          tvTurns = (case jsonl of None \<Rightarrow> 0 | Some j \<Rightarrow> TurnCount j),
          tvGitOwner = gitOwner,
          tvGitRepo = gitRepo,
          tvDefaultModelFormat = ModelFormat cfg,
          tvDefaultCostFormat = CostFormat cfg,
          tvDefaultTokenFormat = TokenFormat cfg\<rparr>)"

subsection \<open>The template engine\<close>

definition formatPath :: "present_env \<Rightarrow> string \<Rightarrow> string \<Rightarrow> string" where
  "formatPath env p format =
     (if p = [] then []
      else if format = ''basename'' then filepath_Base env p
      else if format = ''dir'' then filepath_Dir env p
      else if format = ''ext'' then filepath_Ext env p
      else p)"

definition resolveVar :: "present_env \<Rightarrow> string \<Rightarrow> string \<Rightarrow> templateVars \<Rightarrow> string" where
  "resolveVar env name format vars =
     (if name = ''model''
        then (if tvModel vars = [] then [] else config_FormatModelName env (tvModel vars) format)
      else if name = ''cost''
        then ''$'' @ fmt_Sprintf_float env (if format = [] then ''%.2f'' else format) (tvCost vars)
      else if name = ''tokens'' then FormatTokenCount env (tvTokens vars) format
      else if name = ''input_tokens'' then FormatTokenCount env (tvInputTokens vars) format
      else if name = ''output_tokens'' then FormatTokenCount env (tvOutputTokens vars) format
      else if name = ''cache_tokens'' then FormatTokenCount env (tvCacheTokens vars) format
      else if name = ''project'' then tvProject vars
      else if name = ''branch'' then tvBranch vars
      else if name = ''tool'' then tvTool vars
      else if name = ''tool_target'' then formatPath env (tvToolTarget vars) format
      else if name = ''file'' then formatPath env (tvFile vars) format
      else if name = ''agent_state'' then tvAgentState vars
      else if name = ''permission'' then tvPermission vars
      else if name = ''client'' then tvClient vars
      else if name = ''git_owner'' then tvGitOwner vars
      else if name = ''git_repo'' then tvGitRepo vars
      else if name = ''turns'' then FormatInt (sint (tvTurns vars))
      else ''{'' @ name @ ''}'')"

text \<open>
  \<open>formatVarRegex\<close> is \<open>\{(\w+):([^}]+)\}\<close>.  After an opening brace a match needs a
  non-empty run of word characters (ASCII letters, digits, underscore), a colon, a
  non-empty run of characters other than the closing brace, and the closing brace;
  both runs are as long as they can be, so a match starting at a given brace is unique.
  \<open>matchPlaceholder\<close> looks at the text after a brace and returns the name, the format
  and how many characters the match takes after the brace.
\<close>

definition isWordChar :: "char \<Rightarrow> bool" where
  "isWordChar c =
     (let n = (of_char c :: nat)
      in (48 \<le> n \<and> n \<le> 57) \<or> (65 \<le> n \<and> n \<le> 90) \<or> (97 \<le> n \<and> n \<le> 122) \<or> n = 95)"

definition matchPlaceholder :: "string \<Rightarrow> (string \<times> string \<times> nat) option" where
  "matchPlaceholder cs =
     (let name = takeWhile isWordChar cs; r1 = dropWhile isWordChar cs
      in if name = [] then None
         else (case r1 of
                 [] \<Rightarrow> None
               | d # r2 \<Rightarrow>
                   (if d \<noteq> CHR '':'' then None
                    else (let format = takeWhile (\<lambda>c. c \<noteq> CHR ''}'') r2;
                              r3 = dropWhile (\<lambda>c. c \<noteq> CHR ''}'') r2
                          in if format = [] then None
                             else (case r3 of
                                     [] \<Rightarrow> None
                                   | _ # _ \<Rightarrow>
                                       Some (name, format,
                                             length name + 1 + length format + 1))))))"

text \<open>
  \<open>formatVarRegex.ReplaceAllStringFunc\<close>: the matches are found from left to right, do
  not overlap, and each is replaced by what the function returns for its name and
  format; the replacement is not scanned again.
\<close>

fun replaceFormatVars :: "(string \<Rightarrow> string \<Rightarrow> string) \<Rightarrow> string \<Rightarrow> string" where
  "replaceFormatVars f [] = []"
| "replaceFormatVars f (c # cs) =
     (if c = CHR ''{''
      then (case matchPlaceholder cs of
              Some (name, format, n) \<Rightarrow> f name format @ replaceFormatVars f (drop n cs)
            | None \<Rightarrow> c # replaceFormatVars f cs)
      else c # replaceFormatVars f cs)"

text \<open>
  \<open>strings.ReplaceAll(s, old, new)\<close> for a non-empty \<open>old\<close>, which is what every call in
  \<open>applyTemplate\<close> passes: the occurrences are replaced from left to right without
  overlap.  (For an empty \<open>old\<close> Go inserts \<open>new\<close> around every character; here the string
  is returned as it is.)
\<close>

function ReplaceAll :: "string \<Rightarrow> string \<Rightarrow> string \<Rightarrow> string" where
  "ReplaceAll s old new =
     (if old = [] \<or> s = [] then s
      else if prefix old s then new @ ReplaceAll (drop (length old) s) old new
      else hd s # ReplaceAll (tl s) old new)"
  by pat_completeness auto
termination
  by (relation "measure (\<lambda>(s, old, new). length s)") auto

declare ReplaceAll.simps [simp del]

text \<open>\<open>discordMaxLen\<close>, and the three bytes of the ellipsis \<open>U+2026\<close> in UTF-8.\<close>

definition discordMaxLen :: nat where "discordMaxLen = 128"

definition ellipsis :: string where "ellipsis = [CHR 0xE2, CHR 0x80, CHR 0xA6]"

text \<open>
  \<open>applyTemplate\<close>.  \<open>replacePasses\<close> is its first part: the pass over \<open>{var:format}\<close>
  and the seventeen replacements of \<open>{var}\<close>, in the order of the source.  The
  truncation follows: \<open>len(s)\<close> counts bytes and \<open>s[:discordMaxLen-1]\<close> slices bytes.
\<close>

definition replacePasses :: "present_env \<Rightarrow> string \<Rightarrow> templateVars \<Rightarrow> string" where
  "replacePasses env tmpl vars =
     (let s = replaceFormatVars (\<lambda>name format. resolveVar env name format vars) tmpl;
          s = ReplaceAll s ''{model}'' (resolveVar env ''model'' (tvDefaultModelFormat vars) vars);
          s = ReplaceAll s ''{cost}'' (resolveVar env ''cost'' (tvDefaultCostFormat vars) vars);
          s = ReplaceAll s ''{tokens}'' (resolveVar env ''tokens'' (tvDefaultTokenFormat vars) vars);
          s = ReplaceAll s ''{project}'' (tvProject vars);
          s = ReplaceAll s ''{branch}'' (tvBranch vars);
          s = ReplaceAll s ''{tool}'' (tvTool vars);
          s = ReplaceAll s ''{tool_target}'' (tvToolTarget vars);
          s = ReplaceAll s ''{file}'' (resolveVar env ''file'' [] vars);
          s = ReplaceAll s ''{agent_state}'' (tvAgentState vars);
          s = ReplaceAll s ''{permission}'' (tvPermission vars);
          s = ReplaceAll s ''{client}'' (resolveVar env ''client'' [] vars);
          s = ReplaceAll s ''{input_tokens}''
                (resolveVar env ''input_tokens'' (tvDefaultTokenFormat vars) vars);
          s = ReplaceAll s ''{output_tokens}''
                (resolveVar env ''output_tokens'' (tvDefaultTokenFormat vars) vars);
          s = ReplaceAll s ''{cache_tokens}''
                (resolveVar env ''cache_tokens'' (tvDefaultTokenFormat vars) vars);
          s = ReplaceAll s ''{turns}'' (FormatInt (sint (tvTurns vars)));
          s = ReplaceAll s ''{git_owner}'' (tvGitOwner vars);
          s = ReplaceAll s ''{git_repo}'' (tvGitRepo vars)
      in s)"

definition applyTemplate :: "present_env \<Rightarrow> string \<Rightarrow> templateVars \<Rightarrow> string" where
  "applyTemplate env tmpl vars =
     (let s = replacePasses env tmpl vars
      in if length s > discordMaxLen then take (discordMaxLen - 1) s @ ellipsis else s)"

definition resolveDetails :: "present_env \<Rightarrow> ActivityConfig \<Rightarrow> templateVars \<Rightarrow> string" where
  "resolveDetails env cfg vars =
     (if tvBranch vars = [] \<or> \<not> ShowBranch cfg
      then applyTemplate env (DetailsNoBranchFormat cfg) vars
      else applyTemplate env (DetailsFormat cfg) vars)"

definition resolveState :: "present_env \<Rightarrow> ActivityConfig \<Rightarrow> templateVars \<Rightarrow> string" where
  "resolveState env cfg vars =
     (if \<not> ShowCost cfg \<or> tvCost vars = 0
      then applyTemplate env (StateNoCostFormat cfg) vars
      else applyTemplate env (StateFormat cfg) vars)"

subsection \<open>Building the activity\<close>

definition extractModelTier :: "string \<Rightarrow> string list \<Rightarrow> string \<Rightarrow> string" where
  "extractModelTier model tierList defaultIcon =
     (let stripped =
            (case find (\<lambda>p. prefix p model) [''claude-'', ''gpt-'', ''gemini-'', ''o1-'', ''o3-''] of
               Some p \<Rightarrow> drop (length p) model
             | None \<Rightarrow> model)
      in case find (\<lambda>tier. prefix tier stripped) tierList of
           Some tier \<Rightarrow> tier
         | None \<Rightarrow> (if defaultIcon \<noteq> [] then defaultIcon else ''default''))"

definition applyModelIcon ::
  "present_env \<Rightarrow> Activity \<Rightarrow> ActivityConfig \<Rightarrow> string \<Rightarrow> Activity" where
  "applyModelIcon env a cfg model =
     (if \<not> ShowModelIcon cfg \<or> model = [] then a
      else a\<lparr>aAssets := (aAssets a)
                \<lparr>SmallImage := extractModelTier model (ModelTiers cfg) (DefaultTierIcon cfg),
                 SmallText := config_FormatModelName env model (ModelFormat cfg)\<rparr>\<rparr>)"

definition buildButtons :: "ActivityConfig \<Rightarrow> string \<Rightarrow> Button list" where
  "buildButtons cfg remoteURL =
     (if ShowRepoButton cfg \<and> remoteURL \<noteq> []
      then [\<lparr>Label = RepoButtonLabel cfg, URL = remoteURL\<rparr>] else [])
     @ (if CustomButtonLabel cfg \<noteq> [] \<and> CustomButtonURL cfg \<noteq> []
        then [\<lparr>Label = CustomButtonLabel cfg, URL = CustomButtonURL cfg\<rparr>] else [])"

text \<open>\<open>buildIdleActivity\<close>; \<open>None\<close> is the \<open>nil\<close> activity.\<close>

definition buildIdleActivity :: "State \<Rightarrow> ActivityConfig \<Rightarrow> Activity option" where
  "buildIdleActivity s cfg =
     (if IdleMode cfg = ''idle_text''
      then Some \<lparr>Details = IdleDetails cfg,
                 State' = IdleState cfg,
                 aTimestamps = \<lparr>Start = SessionStart s\<rparr>,
                 aAssets = \<lparr>LargeImage = cfgLargeImage cfg, LargeText = cfgLargeText cfg,
                            SmallImage = [], SmallText = []\<rparr>,
                 Buttons = []\<rparr>
      else if IdleMode cfg = ''last_activity'' then None
      else None)"

definition BuildActivityWithData ::
  "present_env \<Rightarrow> State \<Rightarrow> ActivityConfig \<Rightarrow> real \<Rightarrow> 64 word \<Rightarrow> string
     \<Rightarrow> JSONLData option \<Rightarrow> Activity option" where
  "BuildActivityWithData env s cfg cost totalTokens model jsonl =
     (if Stopped s then None
      else if matchesIgnorePattern env (IgnoredPatterns cfg) (CWD s) then None
      else if isIdle env cfg (LastActivity s) then buildIdleActivity s cfg
      else (let vars = buildTemplateVars env s cfg cost totalTokens model jsonl;
                details = resolveDetails env cfg vars;
                state = resolveState env cfg vars;
                a = \<lparr>Details = details,
                     State' = state,
                     aTimestamps = \<lparr>Start = SessionStart s\<rparr>,
                     aAssets = \<lparr>LargeImage = cfgLargeImage cfg, LargeText = cfgLargeText cfg,
                                SmallImage = [], SmallText = []\<rparr>,
                     Buttons = buildButtons cfg (GitRemoteURL s)\<rparr>
            in Some (applyModelIcon env a cfg model)))"

definition BuildActivity :: "present_env \<Rightarrow> State \<Rightarrow> ActivityConfig \<Rightarrow> Activity option" where
  "BuildActivity env s cfg = BuildActivityWithData env s cfg 0 0 [] None"

text \<open>
  The number of characters (code points) of a well-formed UTF-8 string: the bytes that
  are not continuation bytes (\<open>0x80\<close> to \<open>0xBF\<close>).
\<close>

definition utf8_RuneCount :: "string \<Rightarrow> nat" where
  "utf8_RuneCount s = length (filter (\<lambda>c. (of_char c :: nat) div 64 \<noteq> 2) s)"

section \<open>Sample environments\<close>

text \<open>
  A connection that records the frames written to it, in order, and never fails, with a
  marshaller whose payload is the bytes of the nonce.
\<close>

definition sample_ipc_env :: "(byte list list, unit) ipc_env" where
  "sample_ipc_env =
     \<lparr>conn_Write = (\<lambda>k frame. (None, k @ [frame])),
      conn_Close = (\<lambda>k. None),
      json_Marshal = (\<lambda>cmd args n. Inr (map (\<lambda>ch. of_nat (of_char ch)) n)),
      os_Getpid = 4242\<rparr>"

text \<open>A client connected to the recording connection, and three commands for it.\<close>

definition three_commands :: "(string \<times> int \<times> unit option) list" where
  "three_commands = [(''SET_ACTIVITY'', 4242, Some ()), (''SET_ACTIVITY'', 4242, None),
                     (''SET_ACTIVITY'', 4242, Some ())]"

definition connected_client :: "byte list list Client" where
  "connected_client = \<lparr>appID = ''app'', conn = Some [], nonce = 0\<rparr>"

definition sample_fsnotify_env :: fsnotify_env where
  "sample_fsnotify_env = \<lparr>NewWatcher_fails = False, Add_fails = (\<lambda>dir. False)\<rparr>"

text \<open>
  A sample of what the JSON scanner returns, on the few documents used below; every
  other text is taken to be malformed.
\<close>

definition sample_json_parse :: "string \<Rightarrow> json option" where
  \<open>sample_json_parse data =
     (if data = ''{"$version":3,"sessionStart":"soon"}''
      then Some (JObject [(''$version'', JInt 3), (''sessionStart'', JString ''soon'')])
      else if data = ''{"sessionId":"abc"}''
      then Some (JObject [(''sessionId'', JString ''abc'')])
      else if data = ''{"$version":999,"sessionId":"future-abc","lastActivity":50}''
      then Some (JObject [(''$version'', JInt 999), (''sessionId'', JString ''future-abc''),
                          (''lastActivity'', JInt 50)])
      else if data = ''{"$version":1,"sessionId":"a","lastActivity":100}''
      then Some (JObject [(''$version'', JInt 1), (''sessionId'', JString ''a''),
                          (''lastActivity'', JInt 100)])
      else if data = ''{"$version":1,"sessionId":"b","lastActivity":300}''
      then Some (JObject [(''$version'', JInt 1), (''sessionId'', JString ''b''),
                          (''lastActivity'', JInt 300)])
      else if data = ''{"$version":1,"sessionId":"c","lastActivity":200}''
      then Some (JObject [(''$version'', JInt 1), (''sessionId'', JString ''c''),
                          (''lastActivity'', JInt 200)])
      else None)\<close>

text \<open>A rendering of a state that shows its version and session id.\<close>

definition sample_marshal :: "State \<Rightarrow> string" where
  \<open>sample_marshal s =
     ''{"$version":'' @ FormatInt (sint (Version s)) @ '',"sessionId":"'' @ SessionID s @ ''"}''\<close>

text \<open>
  A machine where every write succeeds, and one where no file can be written (a
  read-only data directory).  The sample \<open>Glob\<close> knows three per-client names.
\<close>

definition sample_session_env :: session_env where
  "sample_session_env =
     \<lparr>json_parse = sample_json_parse,
      json_foldName = (\<lambda>k. k),
      json_Marshal_State = sample_marshal,
      WriteFile_error = (\<lambda>p. None),
      atomicfile_error = (\<lambda>p. None),
      filepath_Glob = (\<lambda>fs pat.
         if pat = ''/d/state.*.json''
         then Some (filter (\<lambda>p. fs p \<noteq> None)
                      [''/d/state.a.json'', ''/d/state.b.json'', ''/d/state.c.json''])
         else Some []),
      filepath_Join = (\<lambda>dir name. dir @ ''/'' @ name),
      sort_Slice = sort_key (\<lambda>m. sint (mVersion m))\<rparr>"

text \<open>Two migrations to the same version, which a sort by version may put in either order.\<close>

definition mig_a :: Migration where
  "mig_a = \<lparr>mVersion = 2, Description = ''a'', Upgrade = (\<lambda>d. Inr (d @ ''a''))\<rparr>"

definition mig_b :: Migration where
  "mig_b = \<lparr>mVersion = 2, Description = ''b'', Upgrade = (\<lambda>d. Inr (d @ ''b''))\<rparr>"

definition readonly_session_env :: session_env where
  "readonly_session_env =
     sample_session_env
       \<lparr>WriteFile_error := (\<lambda>p. Some ''read-only file system''),
        atomicfile_error := (\<lambda>p. Some CreateTemp)\<rparr>"

text \<open>Sample worlds: a data directory \<open>/d\<close> holding one state file.\<close>

definition corrupt_world :: world where
  "corrupt_world = \<lparr>files = [''/d/state.json'' \<mapsto> ''{this is not valid json''], logs = []\<rparr>"

definition future_world :: world where
  \<open>future_world =
     \<lparr>files = [''/d/state.json'' \<mapsto>
                 ''{"$version":999,"sessionId":"future-abc","lastActivity":50}''],
      logs = []\<rparr>\<close>

text \<open>
  A machine on which \<open>os.WriteFile\<close> is refused (the backup path cannot be created)
  while the atomic write of the state file itself succeeds.
\<close>

definition nobackup_session_env :: session_env where
  "nobackup_session_env =
     sample_session_env\<lparr>WriteFile_error := (\<lambda>p. Some ''permission denied'')\<rparr>"

text \<open>Three per-client state files with last-activity times 100, 300 and 200.\<close>

definition three_world :: world where
  \<open>three_world =
     \<lparr>files = [''/d/state.a.json'' \<mapsto> ''{"$version":1,"sessionId":"a","lastActivity":100}'',
                ''/d/state.b.json'' \<mapsto> ''{"$version":1,"sessionId":"b","lastActivity":300}'',
                ''/d/state.c.json'' \<mapsto> ''{"$version":1,"sessionId":"c","lastActivity":200}''],
      logs = []\<rparr>\<close>

definition state_a :: State where
  "state_a = zeroState\<lparr>Version := 1, SessionID := ''a'', LastActivity := 100\<rparr>"

definition state_b :: State where
  "state_b = zeroState\<lparr>Version := 1, SessionID := ''b'', LastActivity := 300\<rparr>"

definition state_c :: State where
  "state_c = zeroState\<lparr>Version := 1, SessionID := ''c'', LastActivity := 200\<rparr>"

text \<open>
  A sample presentation environment: the clock stands at 1707903600, a pattern matches
  the directory equal to it, and the formatters are simple stand-ins.
\<close>

definition sample_present_env :: present_env where
  "sample_present_env =
     \<lparr>time_Now_Unix = 1707903600,
      filepath_Match = (\<lambda>pattern name. Some (pattern = name)),
      filepath_Base = (\<lambda>p. p),
      filepath_Dir = (\<lambda>p. p),
      filepath_Ext = (\<lambda>p. []),
      fmt_Sprintf_float = (\<lambda>format x. ''0.00''),
      FormatTokenCount = (\<lambda>n format. FormatInt (sint n)),
      config_FormatModelName = (\<lambda>model format. model),
      config_ClientDisplayName = (\<lambda>c. c),
      gitRemoteRegex_FindStringSubmatch = (\<lambda>url. [])\<rparr>"

definition sample_config :: ActivityConfig where
  "sample_config =
     \<lparr>DetailsFormat = ''Working on {project} ({branch})'',
      StateFormat = ''Cost: {cost}'',
      DetailsNoBranchFormat = ''Working on {project}'',
      StateNoCostFormat = ''Coding'',
      CostFormat = ''%.2f'',
      TokenFormat = ''short'',
      ModelFormat = ''short'',
      ProjectName = [],
      IgnoredPatterns = [''/private''],
      cfgLargeImage = ''claude'',
      cfgLargeText = ''Claude Code'',
      ShowModelIcon = False,
      ShowRepoButton = False,
      RepoButtonLabel = [],
      CustomButtonLabel = [],
      CustomButtonURL = [],
      ShowCost = False,
      ShowTokens = False,
      ShowBranch = True,
      TimestampMode = ''session'',
      IdleMinutes = 15,
      ModelTiers = [''opus'', ''sonnet'', ''haiku''],
      DefaultTierIcon = ''default'',
      CostShowThreshold = 0,
      TokensShowThreshold = 0,
      IdleMode = [],
      IdleDetails = ''Away from keyboard'',
      IdleState = ''Idle''\<rparr>"

text \<open>A session started an hour before the clock; last active 30 minutes or 1 minute ago.\<close>

definition idle_state :: State where
  "idle_state =
     zeroState\<lparr>Version := 1, SessionStart := 1707900000, LastActivity := 1707901800,
               Project := ''demo'', Branch := ''main'', CWD := ''/tmp/demo''\<rparr>"

definition recent_state :: State where
  "recent_state = idle_state\<lparr>LastActivity := 1707903540\<rparr>"

text \<open>
  A line of fifty copies of the character \<open>U+65E5\<close>, three bytes each in UTF-8
  (\<open>E6 97 A5\<close>): 150 bytes, 50 characters.
\<close>

definition wide_line :: string where
  "wide_line = concat (replicate 50 [CHR 0xE6, CHR 0x97, CHR 0xA5])"

section \<open>Properties\<close>

subsection \<open>Properties of the framing layer\<close>

lemma Uint32_PutUint32: "Uint32 (PutUint32 v) = v"
  unfolding Uint32_def PutUint32_def
  apply simp
  apply (rule bit_word_eqI)
  apply (auto simp add: bit_simps)
  subgoal for n by (cases "n < 24") auto
  done

lemma length_PutUint32: "length (PutUint32 v) = 4"
  by (simp add: PutUint32_def)

lemma unat_payload_length:
  "n \<le> MaxPayloadSize \<Longrightarrow> unat (of_nat n :: 32 word) = n"
  by (simp add: MaxPayloadSize_def unat_of_nat)

text \<open>
  \<open>io.ReadFull\<close> absorbs short reads: however the stream is cut into chunks, asking
  for \<open>n\<close> bytes of a stream that has at least \<open>n\<close> returns exactly the first \<open>n\<close> and
  leaves the rest.
\<close>

lemma readLoop_exact:
  "concat r = xs @ ys \<Longrightarrow> length xs = n \<Longrightarrow>
   \<exists>r'. readLoop n acc r = (Inr (acc @ xs), r') \<and> concat r' = ys"
proof (induction n acc r arbitrary: xs rule: readLoop.induct)
  case (1 n acc)
  then show ?case by simp
next
  case (2 n acc c cs)
  show ?case
  proof (cases "n = 0")
    case True
    with 2 show ?thesis by simp
  next
    case n0: False
    show ?thesis
    proof (cases "length c \<le> n")
      case True
      from 2(2,3) True have c: "c = take (length c) xs"
        by (metis append_eq_append_conv_if concat.simps(2) append_eq_conv_conj)
      from 2(2,3) True have rest: "concat cs = drop (length c) xs @ ys"
        by (metis append_eq_append_conv_if concat.simps(2) append_eq_conv_conj)
      have "\<exists>r'. readLoop (n - length c) (acc @ c) cs
                  = (Inr ((acc @ c) @ drop (length c) xs), r') \<and> concat r' = ys"
        using 2(1)[OF n0 True rest] 2(3) True by simp
      moreover have "c @ drop (length c) xs = xs"
        using c by (metis append_take_drop_id)
      ultimately show ?thesis using n0 True by simp
    next
      case False
      from 2(2,3) False have "take n c = xs" "drop n c @ concat cs = ys"
        by (auto simp: append_eq_append_conv_if)
      then show ?thesis using n0 False by simp
    qed
  qed
qed

lemma ReadFull_exact:
  "concat r = xs @ ys \<Longrightarrow> length xs = n \<Longrightarrow>
   \<exists>r'. ReadFull n r = (Inr xs, r') \<and> concat r' = ys"
  using readLoop_exact[of r xs ys n "[]"] by (simp add: ReadFull_def)

lemma readLoop_length:
  "readLoop n acc r = (Inr bs, r') \<Longrightarrow> length bs = length acc + n"
  by (induction n acc r rule: readLoop.induct) (auto split: if_splits)

lemma ReadFull_length: "ReadFull n r = (Inr bs, r') \<Longrightarrow> length bs = n"
  using readLoop_length[of n "[]" r bs r'] by (simp add: ReadFull_def)

lemma DecodeFrame_encoded:
  assumes len: "length p \<le> MaxPayloadSize"
    and r: "concat r = (PutUint32 opcode @ PutUint32 (of_nat (length p)) @ p) @ rest"
  shows "\<exists>r'. DecodeFrame r = (Inr (opcode, p), r') \<and> concat r' = rest"
proof -
  let ?h = "PutUint32 opcode @ PutUint32 (of_nat (length p))"
  have "concat r = ?h @ (p @ rest)" using r by simp
  moreover have "length ?h = frameHeaderSize"
    by (simp add: length_PutUint32 frameHeaderSize_def)
  ultimately obtain r1 where h: "ReadFull frameHeaderSize r = (Inr ?h, r1)"
    and r1: "concat r1 = p @ rest"
    using ReadFull_exact by blast
  have op: "Uint32 (take 4 ?h) = opcode"
    by (simp add: length_PutUint32 Uint32_PutUint32)
  have ln: "unat (Uint32 (take 4 (drop 4 ?h))) = length p"
    using len by (simp add: length_PutUint32 Uint32_PutUint32 unat_payload_length)
  obtain r2 where p: "ReadFull (length p) r1 = (Inr p, r2)" and r2: "concat r2 = rest"
    using ReadFull_exact[OF r1 refl] by blast
  have "DecodeFrame r = (Inr (opcode, p), r2)"
    unfolding DecodeFrame_def h using op ln len p by (simp add: Let_def)
  with r2 show ?thesis by blast
qed

text \<open>
  C1 (frame round-trip).  For every opcode (any 32-bit value, not only 0, 1, 2) and every
  payload of at most \<open>MaxPayloadSize\<close> bytes, \<open>EncodeFrame\<close> succeeds, and \<open>DecodeFrame\<close> on
  any reader that delivers the encoded bytes (in whatever chunks, followed by whatever
  else) returns exactly that opcode and payload with no error and leaves the reader just
  after the frame.
\<close>

theorem frame_round_trip:
  "length p \<le> MaxPayloadSize \<Longrightarrow>
   \<exists>frame. EncodeFrame opcode p = Inr frame \<and>
     (\<forall>r rest. concat r = frame @ rest \<longrightarrow>
        (\<exists>r'. DecodeFrame r = (Inr (opcode, p), r') \<and> concat r' = rest))"
  using DecodeFrame_encoded[of p _ opcode] by (simp add: EncodeFrame_def)

theorem frame_round_trip_witness:
  "length [1, 2, 3 :: byte] \<le> MaxPayloadSize \<and>
   EncodeFrame 7 [1, 2, 3] = Inr [7, 0, 0, 0, 3, 0, 0, 0, 1, 2, 3] \<and>
   concat [[7, 0, 0], [0, 3, 0, 0, 0, 1], [], [2, 3, 9 :: byte]]
     = [7, 0, 0, 0, 3, 0, 0, 0, 1, 2, 3] @ [9] \<and>
   fst (DecodeFrame [[7, 0, 0], [0, 3, 0, 0, 0, 1], [], [2, 3, 9]]) = Inr (7, [1, 2, 3])"
proof -
  have len: "length [1, 2, 3 :: byte] \<le> MaxPayloadSize"
    by (simp add: MaxPayloadSize_def)
  have enc: "EncodeFrame 7 [1, 2, 3] = Inr [7, 0, 0, 0, 3, 0, 0, 0, 1, 2, 3]"
    by (simp add: EncodeFrame_def MaxPayloadSize_def PutUint32_def)
  have cat: "concat [[7, 0, 0], [0, 3, 0, 0, 0, 1], [], [2, 3, 9 :: byte]]
     = [7, 0, 0, 0, 3, 0, 0, 0, 1, 2, 3] @ [9]"
    by simp
  from frame_round_trip[OF len, of 7] enc
  have "\<forall>r rest. concat r = [7, 0, 0, 0, 3, 0, 0, 0, 1, 2, 3 :: byte] @ rest \<longrightarrow>
        (\<exists>r'. DecodeFrame r = (Inr (7, [1, 2, 3]), r') \<and> concat r' = rest)"
    by simp
  with cat have "\<exists>r'. DecodeFrame [[7, 0, 0], [0, 3, 0, 0, 0, 1], [], [2, 3, 9]]
                   = (Inr (7, [1, 2, 3]), r') \<and> concat r' = [9]"
    by blast
  then have "fst (DecodeFrame [[7, 0, 0], [0, 3, 0, 0, 0, 1], [], [2, 3, 9]])
               = Inr (7, [1, 2, 3])"
    by auto
  with len enc cat show ?thesis by blast
qed

text \<open>
  C2 (oversize rejection, exact boundary).  \<open>MaxPayloadSize\<close> is 1 MiB.  \<open>EncodeFrame\<close>
  fails with an error matching \<open>ErrPayloadTooLarge\<close> for every payload longer than that
  and succeeds at exactly that length.  \<open>DecodeFrame\<close> fails with an error matching the
  same sentinel whenever the length field of the header it read exceeds the maximum, and
  the reader is then left as it was right after the eight header bytes: no payload byte
  has been read.
\<close>

theorem frame_oversize_rejected:
  "MaxPayloadSize = 1048576 \<and>
   (length p > MaxPayloadSize \<longrightarrow>
      (\<exists>e. EncodeFrame opcode p = Inl e \<and> is_ErrPayloadTooLarge e)) \<and>
   (length q = MaxPayloadSize \<longrightarrow> (\<exists>frame. EncodeFrame opcode q = Inr frame)) \<and>
   (ReadFull frameHeaderSize r = (Inr header, r1) \<and>
      unat (Uint32 (take 4 (drop 4 header))) > MaxPayloadSize \<longrightarrow>
      (\<exists>e. DecodeFrame r = (Inl e, r1) \<and> is_ErrPayloadTooLarge e))"
  by (simp add: EncodeFrame_def DecodeFrame_def MaxPayloadSize_def Let_def)

theorem frame_oversize_rejected_witness:
  "length (replicate 1048577 (0 :: byte)) > MaxPayloadSize \<and>
   (\<exists>e. EncodeFrame 1 (replicate 1048577 0) = Inl e \<and> is_ErrPayloadTooLarge e) \<and>
   length (replicate 1048576 (0 :: byte)) = MaxPayloadSize \<and>
   (\<exists>frame. EncodeFrame 1 (replicate 1048576 0) = Inr frame) \<and>
   ReadFull frameHeaderSize [[1, 0, 0, 0, 1, 0], [16, 0, 5, 5]]
     = (Inr [1, 0, 0, 0, 1, 0, 16, 0], [[5, 5]]) \<and>
   unat (Uint32 (take 4 (drop 4 [1, 0, 0, 0, 1, 0, 16, 0]))) > MaxPayloadSize \<and>
   (\<exists>e. DecodeFrame [[1, 0, 0, 0, 1, 0], [16, 0, 5, 5]] = (Inl e, [[5, 5]])
        \<and> is_ErrPayloadTooLarge e)"
proof -
  have a: "length (replicate 1048577 (0 :: byte)) > MaxPayloadSize"
    by (simp add: MaxPayloadSize_def)
  have b: "length (replicate 1048576 (0 :: byte)) = MaxPayloadSize"
    by (simp add: MaxPayloadSize_def)
  have c: "ReadFull frameHeaderSize [[1, 0, 0, 0, 1, 0], [16, 0, 5, 5]]
     = (Inr [1, 0, 0, 0, 1, 0, 16, 0], [[5, 5]])"
    by (simp add: ReadFull_def frameHeaderSize_def)
  have d: "unat (Uint32 (take 4 (drop 4 [1, 0, 0, 0, 1, 0, 16, 0]))) > MaxPayloadSize"
    by (simp add: Uint32_def MaxPayloadSize_def)
  note t1 = frame_oversize_rejected[of "replicate 1048577 0" 1 "replicate 1048576 0"
      "[[1, 0, 0, 0, 1, 0], [16, 0, 5, 5]]" "[1, 0, 0, 0, 1, 0, 16, 0]" "[[5, 5]]"]
  from t1 a b c d show ?thesis by blast
qed


subsection \<open>Properties of the decimal formatting\<close>

lemma decimalValue_snoc:
  "decimalValue (s @ [c]) = 10 * decimalValue s + (of_char c - 48)"
  by (simp add: decimalValue_def)

lemma digit_val: "d < 10 \<Longrightarrow> (of_char (digit d) :: nat) - 48 = d"
proof -
  assume "d < 10"
  then have "d \<in> {0, 1, 2, 3, 4, 5, 6, 7, 8, 9}" by auto
  then show ?thesis by (auto simp: digit_def)
qed

lemma decimalValue_FormatUint: "decimalValue (FormatUint n) = n"
proof (induction n rule: FormatUint.induct)
  case (1 n)
  show ?case
  proof (cases "n < 10")
    case True
    then show ?thesis
      by (subst FormatUint.simps) (simp add: decimalValue_def digit_val)
  next
    case False
    have "(of_char (digit (n mod 10)) :: nat) - 48 = n mod 10"
      by (rule digit_val) simp
    with False 1 show ?thesis
      by (subst FormatUint.simps) (simp add: decimalValue_snoc)
  qed
qed

subsection \<open>Properties of the IPC client\<close>

text \<open>
  What one call does.  Without a connection nothing is touched; with one, the counter is
  incremented first, and what is marshalled, framed and written is determined by the
  incremented counter.
\<close>

lemma sendCommand_disconnected:
  "conn c = None \<Longrightarrow> sendCommand env c cmd args = (Some ErrNotConnected, c)"
  by (simp add: sendCommand_def)

lemma sendCommand_connected:
  "conn c = Some k \<Longrightarrow>
   sendCommand env c cmd args =
     (case json_Marshal env cmd args (FormatUint (unat (nonce c + 1))) of
        Inl e \<Rightarrow> (Some (MarshalingCommand e), c\<lparr>nonce := nonce c + 1\<rparr>)
      | Inr payload \<Rightarrow>
          (case EncodeFrame OpFrame payload of
             Inl e \<Rightarrow> (Some (EncodingCommand e), c\<lparr>nonce := nonce c + 1\<rparr>)
           | Inr frame \<Rightarrow>
               (map_option WritingCommand (fst (conn_Write env k frame)),
                c\<lparr>nonce := nonce c + 1, conn := Some (snd (conn_Write env k frame))\<rparr>)))"
  by (simp add: sendCommand_def Let_def split: sum.splits prod.splits option.splits)

lemma sendCommand_connected_nonce:
  "conn c = Some k \<Longrightarrow> nonce (snd (sendCommand env c cmd args)) = nonce c + 1"
  by (simp add: sendCommand_connected split: sum.splits)

lemma sendCommand_connected_conn:
  "conn c = Some k \<Longrightarrow> conn (snd (sendCommand env c cmd args)) \<noteq> None"
  by (simp add: sendCommand_connected split: sum.splits)

lemma sendAll_disconnected: "conn c = None \<Longrightarrow> sendAll env c cmds = c"
  by (induction cmds arbitrary: c) (auto simp: sendCommand_disconnected)

lemma sendAll_connected:
  "conn c = Some k \<Longrightarrow>
   conn (sendAll env c cmds) \<noteq> None \<and> nonce (sendAll env c cmds) = nonce c + of_nat (length cmds)"
proof (induction cmds arbitrary: c k)
  case Nil
  then show ?case by simp
next
  case (Cons a cmds)
  obtain cmd args where a: "a = (cmd, args)" by (cases a)
  let ?c' = "snd (sendCommand env c cmd args)"
  obtain k' where k': "conn ?c' = Some k'"
    using sendCommand_connected_conn[OF Cons.prems] by blast
  have n': "nonce ?c' = nonce c + 1" using Cons.prems by (rule sendCommand_connected_nonce)
  from Cons.IH[OF k'] show ?case using a n' by simp
qed

lemma unat_nonce_add:
  "unat (n :: 64 word) + m < 2 ^ 64 \<Longrightarrow> unat (n + of_nat m) = unat n + m"
  by (simp add: unat_word_ariths unat_of_nat)

lemma sorted_decimal_upt:
  "sorted_wrt (<) (map decimalValue (map FormatUint [a ..< b]))"
proof -
  have "map decimalValue (map FormatUint [a ..< b]) = [a ..< b]"
    by (simp add: decimalValue_FormatUint comp_def)
  then show ?thesis by (simp add: strict_sorted_iff[symmetric])
qed

lemma length_FormatUint: "n < 10 ^ k \<Longrightarrow> k > 0 \<Longrightarrow> length (FormatUint n) \<le> k"
proof (induction k arbitrary: n)
  case 0
  then show ?case by simp
next
  case (Suc k)
  show ?case
  proof (cases "n < 10")
    case True
    then show ?thesis by (subst FormatUint.simps) simp
  next
    case False
    then have k: "k > 0" using Suc.prems by (cases k) auto
    have "n div 10 < 10 ^ k" using Suc.prems(1) by (simp add: less_mult_imp_div_less mult.commute)
    from Suc.IH[OF this k] show ?thesis using False by (subst FormatUint.simps) simp
  qed
qed

lemma length_FormatUint_64: "n < 2 ^ 64 \<Longrightarrow> length (FormatUint n) \<le> 20"
proof -
  assume "n < 2 ^ 64"
  moreover have "(2 :: nat) ^ 64 < 10 ^ 20" by simp
  ultimately have "n < 10 ^ 20" by linarith
  then show ?thesis by (rule length_FormatUint) simp
qed

text \<open>The counter is a \<open>uint64\<close>: after \<open>2^64 - 1\<close> the nonce marshalled next is \<open>0\<close>.\<close>

lemma sendCommand_nonce_wraps:
  "conn c = Some k \<Longrightarrow> nonce c = - 1 \<Longrightarrow>
   sendCommand env c cmd args =
     (case json_Marshal env cmd args ''0'' of
        Inl e \<Rightarrow> (Some (MarshalingCommand e), c\<lparr>nonce := 0\<rparr>)
      | Inr payload \<Rightarrow>
          (case EncodeFrame OpFrame payload of
             Inl e \<Rightarrow> (Some (EncodingCommand e), c\<lparr>nonce := 0\<rparr>)
           | Inr frame \<Rightarrow>
               (map_option WritingCommand (fst (conn_Write env k frame)),
                c\<lparr>nonce := 0, conn := Some (snd (conn_Write env k frame))\<rparr>)))"
  by (simp add: sendCommand_connected FormatUint.simps digit_def split: sum.splits)

text \<open>
  On the recording connection the frames can be read back: each call appends one frame,
  an \<open>OpFrame\<close> header followed by the payload the marshaller made of the nonce.
\<close>

lemma sample_sendCommand:
  assumes "conn c = Some k" and "unat (nonce c) + 1 < 2 ^ 64"
  shows "snd (sendCommand sample_ipc_env c cmd args)
           = c\<lparr>nonce := nonce c + 1,
               conn := Some (k @ [PutUint32 OpFrame
                  @ PutUint32 (of_nat (length (FormatUint (unat (nonce c) + 1))))
                  @ map (\<lambda>ch. of_nat (of_char ch)) (FormatUint (unat (nonce c) + 1))])\<rparr>"
proof -
  have u: "unat (nonce c + 1) = unat (nonce c) + 1"
    using unat_nonce_add[of "nonce c" 1] assms(2) by simp
  have "length (FormatUint (unat (nonce c) + 1)) \<le> 20"
    using assms(2) by (intro length_FormatUint_64) simp
  then have l: "\<not> MaxPayloadSize < length (FormatUint (unat (nonce c) + 1))"
    by (simp add: MaxPayloadSize_def)
  show ?thesis
    using l by (simp add: sendCommand_connected[OF assms(1)] u sample_ipc_env_def EncodeFrame_def)
qed

lemma sample_sendAll:
  "conn c = Some k \<Longrightarrow> unat (nonce c) + length cmds < 2 ^ 64 \<Longrightarrow>
   conn (sendAll sample_ipc_env c cmds)
     = Some (k @ map (\<lambda>i. PutUint32 OpFrame @ PutUint32 (of_nat (length (FormatUint i)))
                          @ map (\<lambda>ch. of_nat (of_char ch)) (FormatUint i))
                  [unat (nonce c) + 1 ..< unat (nonce c) + 1 + length cmds])"
proof (induction cmds arbitrary: c k)
  case Nil
  then show ?case by simp
next
  case (Cons a cmds)
  obtain cmd args where a: "a = (cmd, args)" by (cases a)
  let ?f = "\<lambda>i. PutUint32 OpFrame @ PutUint32 (of_nat (length (FormatUint i)))
                          @ map (\<lambda>ch. of_nat (of_char ch)) (FormatUint i)"
  let ?c' = "snd (sendCommand sample_ipc_env c cmd args)"
  have b1: "unat (nonce c) + 1 < 2 ^ 64" using Cons.prems(2) by simp
  have c': "?c' = c\<lparr>nonce := nonce c + 1, conn := Some (k @ [?f (unat (nonce c) + 1)])\<rparr>"
    using Cons.prems(1) b1 by (rule sample_sendCommand)
  have u: "unat (nonce c + 1) = unat (nonce c) + 1"
    using unat_nonce_add[of "nonce c" 1] b1 by simp
  have k': "conn ?c' = Some (k @ [?f (unat (nonce c) + 1)])" by (simp add: c')
  have n': "unat (nonce ?c') = unat (nonce c) + 1" by (simp add: c' u)
  have "conn (sendAll sample_ipc_env ?c' cmds)
          = Some ((k @ [?f (unat (nonce c) + 1)])
                  @ map ?f [unat (nonce ?c') + 1 ..< unat (nonce ?c') + 1 + length cmds])"
    using Cons.prems(2) n' by (intro Cons.IH[OF k']) simp
  moreover have "[unat (nonce c) + 1 ..< unat (nonce c) + 1 + length (a # cmds)]
      = (unat (nonce c) + 1) # [unat (nonce c) + 1 + 1 ..< unat (nonce c) + 1 + 1 + length cmds]"
    by (simp add: upt_conv_Cons del: upt_Suc)
  ultimately show ?case
    unfolding a n' by (simp del: upt_Suc)
qed

lemma DecodeFrame_command_frame:
  assumes "i < 2 ^ 64"
  shows "fst (DecodeFrame [PutUint32 OpFrame @ PutUint32 (of_nat (length (FormatUint i)))
                          @ map (\<lambda>ch. of_nat (of_char ch)) (FormatUint i)])
           = Inr (OpFrame, map (\<lambda>ch. of_nat (of_char ch)) (FormatUint i))"
proof -
  let ?p = "map (\<lambda>ch. of_nat (of_char ch) :: byte) (FormatUint i)"
  have "length (FormatUint i) \<le> 20" using assms by (rule length_FormatUint_64)
  then have l: "length ?p \<le> MaxPayloadSize" by (simp add: MaxPayloadSize_def)
  have "concat [PutUint32 OpFrame @ PutUint32 (of_nat (length ?p)) @ ?p]
          = (PutUint32 OpFrame @ PutUint32 (of_nat (length ?p)) @ ?p) @ []" by simp
  from DecodeFrame_encoded[OF l this] show ?thesis by auto
qed

lemma sample_command_numerals:
  "map (\<lambda>i. Inr (OpFrame, map (\<lambda>ch. of_nat (of_char ch)) (FormatUint i))) [0 + 1 ..< 0 + 1 + 3]
     = [Inr (OpFrame, [49 :: byte]), Inr (OpFrame, [50]), Inr (OpFrame, [51])]"
  by (simp add: upt_rec FormatUint.simps digit_def)

text \<open>
  C10 (sending without a connection; nonces).  With no connection, \<open>sendCommand\<close>, and so
  \<open>SetActivity\<close> and \<open>ClearActivity\<close>, returns \<open>ErrNotConnected\<close> and leaves the client as it
  was, counter included, and a sequence of calls leaves it as it was.  With a connection,
  a call increments the counter and hands the marshaller the command, the arguments and
  the decimal numeral of the incremented counter; the marshalled payload is framed with
  \<open>OpFrame\<close> and that frame is what is written to the connection; the call's error is the
  marshalling, the framing or the write error.  Successive calls on one client therefore
  find the counter advanced by the number of calls made before; while the counter stays
  below \<open>2^64\<close> the numerals are those of \<open>n + 1, n + 2, ...\<close>, strictly increasing.  On
  the recording connection, the frames written by a sequence of calls, decoded one by
  one, are \<open>OpFrame\<close> frames whose payloads are exactly those numerals, in that order.
\<close>

theorem sendCommand_not_connected_and_nonces:
  "(conn c = None \<longrightarrow>
      sendCommand env c cmd args = (Some ErrNotConnected, c) \<and>
      SetActivity env c activity = (Some ErrNotConnected, c) \<and>
      ClearActivity env c = (Some ErrNotConnected, c) \<and>
      sendAll env c cmds = c) \<and>
   (conn c = Some k \<longrightarrow>
      sendCommand env c cmd args =
        (case json_Marshal env cmd args (FormatUint (unat (nonce c + 1))) of
           Inl e \<Rightarrow> (Some (MarshalingCommand e), c\<lparr>nonce := nonce c + 1\<rparr>)
         | Inr payload \<Rightarrow>
             (case EncodeFrame OpFrame payload of
                Inl e \<Rightarrow> (Some (EncodingCommand e), c\<lparr>nonce := nonce c + 1\<rparr>)
              | Inr frame \<Rightarrow>
                  (map_option WritingCommand (fst (conn_Write env k frame)),
                   c\<lparr>nonce := nonce c + 1,
                     conn := Some (snd (conn_Write env k frame))\<rparr>)))) \<and>
   (conn c \<noteq> None \<longrightarrow>
      nonce (snd (sendCommand env c cmd args)) = nonce c + 1 \<and>
      conn (sendAll env c cmds) \<noteq> None \<and>
      nonce (sendAll env c cmds) = nonce c + of_nat (length cmds)) \<and>
   (unat (nonce c) + length cmds < 2 ^ 64 \<longrightarrow>
      unat (nonce c + of_nat (length cmds)) = unat (nonce c) + length cmds \<and>
      sorted_wrt (<) (map decimalValue
         (map FormatUint [unat (nonce c) + 1 ..< unat (nonce c) + 1 + length cmds]))) \<and>
   (conn r = Some fs0 \<and> unat (nonce r) + length rcmds < 2 ^ 64 \<longrightarrow>
      (\<exists>fs. conn (sendAll sample_ipc_env r rcmds) = Some (fs0 @ fs) \<and>
            map (\<lambda>f. fst (DecodeFrame [f])) fs
              = map (\<lambda>i. Inr (OpFrame, map (\<lambda>ch. of_nat (of_char ch)) (FormatUint i)))
                  [unat (nonce r) + 1 ..< unat (nonce r) + 1 + length rcmds]))"
proof (intro conjI impI)
  assume "conn c = None"
  then show "sendCommand env c cmd args = (Some ErrNotConnected, c)"
    by (rule sendCommand_disconnected)
next
  assume "conn c = None"
  then show "SetActivity env c activity = (Some ErrNotConnected, c)"
    by (simp add: SetActivity_def sendCommand_disconnected)
next
  assume "conn c = None"
  then show "ClearActivity env c = (Some ErrNotConnected, c)"
    by (simp add: ClearActivity_def sendCommand_disconnected)
next
  assume "conn c = None"
  then show "sendAll env c cmds = c" by (rule sendAll_disconnected)
next
  assume "conn c = Some k"
  then show "sendCommand env c cmd args =
        (case json_Marshal env cmd args (FormatUint (unat (nonce c + 1))) of
           Inl e \<Rightarrow> (Some (MarshalingCommand e), c\<lparr>nonce := nonce c + 1\<rparr>)
         | Inr payload \<Rightarrow>
             (case EncodeFrame OpFrame payload of
                Inl e \<Rightarrow> (Some (EncodingCommand e), c\<lparr>nonce := nonce c + 1\<rparr>)
              | Inr frame \<Rightarrow>
                  (map_option WritingCommand (fst (conn_Write env k frame)),
                   c\<lparr>nonce := nonce c + 1,
                     conn := Some (snd (conn_Write env k frame))\<rparr>)))"
    by (rule sendCommand_connected)
next
  assume "conn c \<noteq> None"
  then obtain k0 where "conn c = Some k0" by auto
  then show "nonce (snd (sendCommand env c cmd args)) = nonce c + 1"
    by (rule sendCommand_connected_nonce)
next
  assume "conn c \<noteq> None"
  then obtain k0 where "conn c = Some k0" by auto
  then have "conn (sendAll env c cmds) \<noteq> None \<and>
             nonce (sendAll env c cmds) = nonce c + of_nat (length cmds)"
    by (rule sendAll_connected)
  then show "conn (sendAll env c cmds) \<noteq> None" ..
next
  assume "conn c \<noteq> None"
  then obtain k0 where "conn c = Some k0" by auto
  then have "conn (sendAll env c cmds) \<noteq> None \<and>
             nonce (sendAll env c cmds) = nonce c + of_nat (length cmds)"
    by (rule sendAll_connected)
  then show "nonce (sendAll env c cmds) = nonce c + of_nat (length cmds)" ..
next
  assume "unat (nonce c) + length cmds < 2 ^ 64"
  then show "unat (nonce c + of_nat (length cmds)) = unat (nonce c) + length cmds"
    by (rule unat_nonce_add)
next
  show "sorted_wrt (<) (map decimalValue
         (map FormatUint [unat (nonce c) + 1 ..< unat (nonce c) + 1 + length cmds]))"
    by (rule sorted_decimal_upt)
next
  assume a: "conn r = Some fs0 \<and> unat (nonce r) + length rcmds < 2 ^ 64"
  let ?f = "\<lambda>i. PutUint32 OpFrame @ PutUint32 (of_nat (length (FormatUint i)))
                          @ map (\<lambda>ch. of_nat (of_char ch)) (FormatUint i)"
  let ?is = "[unat (nonce r) + 1 ..< unat (nonce r) + 1 + length rcmds]"
  have 1: "conn (sendAll sample_ipc_env r rcmds) = Some (fs0 @ map ?f ?is)"
    using a by (intro sample_sendAll) simp_all
  have 2: "map (\<lambda>f. fst (DecodeFrame [f])) (map ?f ?is)
              = map (\<lambda>i. Inr (OpFrame, map (\<lambda>ch. of_nat (of_char ch)) (FormatUint i))) ?is"
    unfolding map_map comp_def
  proof (rule map_cong[OF refl])
    fix i assume "i \<in> set ?is"
    then have "i < 2 ^ 64" using a by auto
    then show "fst (DecodeFrame [?f i])
                 = Inr (OpFrame, map (\<lambda>ch. of_nat (of_char ch)) (FormatUint i))"
      by (rule DecodeFrame_command_frame)
  qed
  from 1 2 show "\<exists>fs. conn (sendAll sample_ipc_env r rcmds) = Some (fs0 @ fs) \<and>
            map (\<lambda>f. fst (DecodeFrame [f])) fs
              = map (\<lambda>i. Inr (OpFrame, map (\<lambda>ch. of_nat (of_char ch)) (FormatUint i))) ?is"
    by (intro exI[of _ "map ?f ?is"] conjI)
qed

theorem sendCommand_not_connected_and_nonces_witness:
  "conn (NewClient ''app'' :: byte list list Client) = None \<and>
   sendCommand sample_ipc_env (NewClient ''app'') ''SET_ACTIVITY'' (4242, None)
     = (Some ErrNotConnected, NewClient ''app'') \<and>
   SetActivity sample_ipc_env (NewClient ''app'') (Some ())
     = (Some ErrNotConnected, NewClient ''app'') \<and>
   sendAll sample_ipc_env (NewClient ''app'') three_commands = NewClient ''app'' \<and>
   conn connected_client = Some [] \<and>
   sendCommand sample_ipc_env connected_client ''SET_ACTIVITY'' (4242, None)
     = (None, connected_client\<lparr>nonce := 1, conn := Some [[1, 0, 0, 0, 1, 0, 0, 0, 49]]\<rparr>) \<and>
   nonce (sendAll sample_ipc_env connected_client three_commands) = 3 \<and>
   (\<exists>fs. conn (sendAll sample_ipc_env connected_client three_commands) = Some fs \<and>
         map (\<lambda>f. fst (DecodeFrame [f])) fs
           = [Inr (OpFrame, [49]), Inr (OpFrame, [50]), Inr (OpFrame, [51])])"
proof -
  note d = sendCommand_not_connected_and_nonces
             [of "NewClient ''app''" sample_ipc_env "''SET_ACTIVITY''" "(4242, None)" "Some ()"
                 three_commands "[]" connected_client "[]" three_commands]
  note k = sendCommand_not_connected_and_nonces
             [of connected_client sample_ipc_env "''SET_ACTIVITY''" "(4242, None)" "Some ()"
                 three_commands "[]" connected_client "[]" three_commands]
  have n: "conn (NewClient ''app'' :: byte list list Client) = None"
    by (simp add: NewClient_def)
  have c: "conn connected_client = Some []" "nonce connected_client = 0"
    by (simp_all add: connected_client_def)
  have l: "length three_commands = 3" by (simp add: three_commands_def)
  have 1: "sendCommand sample_ipc_env (NewClient ''app'') ''SET_ACTIVITY'' (4242, None)
             = (Some ErrNotConnected, NewClient ''app'')"
          "SetActivity sample_ipc_env (NewClient ''app'') (Some ())
             = (Some ErrNotConnected, NewClient ''app'')"
          "sendAll sample_ipc_env (NewClient ''app'') three_commands = NewClient ''app''"
    using d n by simp_all
  have 2: "sendCommand sample_ipc_env connected_client ''SET_ACTIVITY'' (4242, None)
     = (None, connected_client\<lparr>nonce := 1, conn := Some [[1, 0, 0, 0, 1, 0, 0, 0, 49]]\<rparr>)"
    using k c
    by (simp add: sample_ipc_env_def FormatUint.simps digit_def EncodeFrame_def
                  MaxPayloadSize_def PutUint32_def OpFrame_def)
  have 3: "nonce (sendAll sample_ipc_env connected_client three_commands) = 3"
    using k c l by simp
  have 4: "\<exists>fs. conn (sendAll sample_ipc_env connected_client three_commands) = Some fs \<and>
         map (\<lambda>f. fst (DecodeFrame [f])) fs
           = [Inr (OpFrame, [49]), Inr (OpFrame, [50]), Inr (OpFrame, [51])]"
    using k [THEN conjunct2, THEN conjunct2, THEN conjunct2, THEN conjunct2] c l
          sample_command_numerals
    by auto
  from n c(1) 1 2 3 4 show ?thesis by (intro conjI)
qed

subsection \<open>Properties of the watcher's channel\<close>

lemma notify_keeps_one_slot:
  "cap (events w) = 1 \<Longrightarrow> length (buf (events w)) \<le> 1 \<Longrightarrow>
   \<exists>w'. notify w = Some w' \<and> cap (events w') = 1 \<and> length (buf (events w')) = 1"
  by (cases "buf (events w)") (auto simp: notify_def chan_send_def)

lemma notify_times_one_slot:
  "cap (events w) = 1 \<Longrightarrow> length (buf (events w)) \<le> 1 \<Longrightarrow>
   \<exists>w'. notify_times n w = Some w' \<and> cap (events w') = 1 \<and>
        length (buf (events w')) = (if n = 0 then length (buf (events w)) else 1)"
proof (induction n arbitrary: w)
  case 0
  then show ?case by simp
next
  case (Suc n)
  from notify_keeps_one_slot[OF Suc.prems] obtain w1 where
    w1: "notify w = Some w1" "cap (events w1) = 1" "length (buf (events w1)) = 1"
    by blast
  from Suc.IH[of w1] w1 obtain w' where
    "notify_times n w1 = Some w'" "cap (events w') = 1"
    "length (buf (events w')) = (if n = 0 then length (buf (events w1)) else 1)"
    by auto
  with w1 show ?case by auto
qed

text \<open>
  C9 (signal coalescing).  The event channel that \<open>NewDirWatcher\<close> makes has exactly one
  slot and starts empty.  A \<open>notify\<close> call never blocks.  On a watcher whose event
  channel has one slot, any \<open>n \<ge> 1\<close> consecutive \<open>notify\<close> calls with no receive in
  between all return, and afterwards exactly one signal is pending, so never more than
  one.
\<close>

theorem watcher_notify_coalesces:
  "cap (events (NewDirWatcher fs dir)) = 1 \<and>
   buf (events (NewDirWatcher fs dir)) = [] \<and>
   notify w \<noteq> None \<and>
   (1 \<le> n \<and> cap (events w) = 1 \<and> length (buf (events w)) \<le> 1 \<longrightarrow>
      (\<exists>w'. notify_times n w = Some w' \<and> cap (events w') = 1 \<and>
            length (buf (events w')) = 1))"
proof (intro conjI impI)
  show "cap (events (NewDirWatcher fs dir)) = 1"
    by (simp add: NewDirWatcher_def make_chan_def Let_def)
  show "buf (events (NewDirWatcher fs dir)) = []"
    by (simp add: NewDirWatcher_def make_chan_def Let_def)
  show "notify w \<noteq> None"
    by (simp add: notify_def split: option.splits)
next
  assume "1 \<le> n \<and> cap (events w) = 1 \<and> length (buf (events w)) \<le> 1"
  then show "\<exists>w'. notify_times n w = Some w' \<and> cap (events w') = 1 \<and>
            length (buf (events w')) = 1"
    using notify_times_one_slot[of w n] by auto
qed

theorem watcher_notify_coalesces_witness:
  "(1 :: nat) \<le> 5 \<and>
   cap (events (NewDirWatcher sample_fsnotify_env ''/data'')) = 1 \<and>
   length (buf (events (NewDirWatcher sample_fsnotify_env ''/data''))) \<le> 1 \<and>
   (\<exists>w'. notify_times 5 (NewDirWatcher sample_fsnotify_env ''/data'') = Some w' \<and>
         cap (events w') = 1 \<and> length (buf (events w')) = 1)"
proof -
  let ?w = "NewDirWatcher sample_fsnotify_env ''/data''"
  note t = watcher_notify_coalesces[of sample_fsnotify_env "''/data''" ?w 5]
  have a: "cap (events ?w) = 1" using t by blast
  have "buf (events ?w) = []" using t by blast
  then have b: "length (buf (events ?w)) \<le> 1" by simp
  have c: "(1 :: nat) \<le> 5" by simp
  from t a b c show ?thesis by blast
qed


subsection \<open>Properties of the JSON decoding and of \<open>PeekVersion\<close>\<close>

lemma sint_word_of_int_64:
  "- (2 ^ 63) \<le> n \<Longrightarrow> n < 2 ^ 63 \<Longrightarrow> sint (word_of_int n :: 64 word) = n"
  by (simp add: signed_of_int signed_take_bit_int_eq_self)

lemma decodeMembers_filter:
  "decodeMembers foldName names setf ms (s, err)
     = decodeMembers foldName names setf
         (filter (\<lambda>(k, v). findField foldName names k \<noteq> None) ms) (s, err)"
  by (induction ms arbitrary: s err) (auto split: option.splits)

lemma findField_single: "findField foldName [x] k = Some f \<Longrightarrow> f = x"
  by (auto simp: findField_def split: if_splits)

lemma decodeMembers_version_absent:
  "filter (\<lambda>(k, v). findField foldName [''$version''] k \<noteq> None) ms = [] \<Longrightarrow>
   decodeMembers foldName [''$version''] setPartialField ms (0, None) = (0, None)"
  by (subst decodeMembers_filter) simp

lemma decodeMembers_version_once:
  assumes "filter (\<lambda>(k, v). findField foldName [''$version''] k \<noteq> None) ms = [(k, JInt n)]"
    and "- (2 ^ 63) \<le> n" and "n < 2 ^ 63"
  shows "decodeMembers foldName [''$version''] setPartialField ms (0, None)
           = (word_of_int n, None)"
proof -
  have "(k, JInt n) \<in> set (filter (\<lambda>(k, v). findField foldName [''$version''] k \<noteq> None) ms)"
    using assms(1) by simp
  then obtain f where "findField foldName [''$version''] k = Some f" by auto
  moreover from this have "f = ''$version''" by (rule findField_single)
  ultimately have "findField foldName [''$version''] k = Some ''$version''" by simp
  then show ?thesis
    using assms
    by (subst decodeMembers_filter) (simp add: setPartialField_def decodeInt64_def)
qed

text \<open>
  C8 (version peeking).  When the text is well-formed JSON holding an object, the
  result of \<open>PeekVersion\<close> depends only on the members whose key binds to \<open>$version\<close>:
  with no such member it returns 1; with one such member holding an integer \<open>n\<close> that
  fits 64 bits it returns \<open>n\<close>, or 1 when \<open>n\<close> is zero.  Nothing is asked of the other
  members, which need not decode into a \<open>State\<close>.  (Text that is not well-formed JSON
  gives an error, as the source's comment says.)
\<close>

theorem PeekVersion_only_reads_version:
  "(json_parse env data = Some (JObject ms) \<and>
      filter (\<lambda>(k, v). findField (json_foldName env) [''$version''] k \<noteq> None) ms = []
      \<longrightarrow> PeekVersion env data = Inr 1) \<and>
   (json_parse env data = Some (JObject ms) \<and>
      filter (\<lambda>(k, v). findField (json_foldName env) [''$version''] k \<noteq> None) ms
        = [(k, JInt n)] \<and>
      - (2 ^ 63) \<le> n \<and> n < 2 ^ 63
      \<longrightarrow> PeekVersion env data = Inr (if n = 0 then 1 else word_of_int n))"
proof (intro conjI impI)
  assume "json_parse env data = Some (JObject ms) \<and>
      filter (\<lambda>(k, v). findField (json_foldName env) [''$version''] k \<noteq> None) ms = []"
  then show "PeekVersion env data = Inr 1"
    by (simp add: PeekVersion_def Unmarshal_def decodeMembers_version_absent)
next
  assume a: "json_parse env data = Some (JObject ms) \<and>
      filter (\<lambda>(k, v). findField (json_foldName env) [''$version''] k \<noteq> None) ms
        = [(k, JInt n)] \<and>
      - (2 ^ 63) \<le> n \<and> n < 2 ^ 63"
  then have d: "decodeMembers (json_foldName env) [''$version''] setPartialField ms (0, None)
                 = (word_of_int n, None)"
    by (intro decodeMembers_version_once) auto
  have z: "(word_of_int n :: 64 word) = 0 \<longleftrightarrow> n = 0"
    using a sint_word_of_int_64[of n] by (metis sint_0 word_of_int_0)
  show "PeekVersion env data = Inr (if n = 0 then 1 else word_of_int n)"
    using a d z by (simp add: PeekVersion_def Unmarshal_def)
qed



theorem PeekVersion_only_reads_version_witness:
  \<open>json_parse sample_session_env ''{"$version":3,"sessionStart":"soon"}''
     = Some (JObject [(''$version'', JInt 3), (''sessionStart'', JString ''soon'')]) \<and>
   filter (\<lambda>(k, v). findField (json_foldName sample_session_env) [''$version''] k \<noteq> None)
     [(''$version'', JInt 3), (''sessionStart'', JString ''soon'')] = [(''$version'', JInt 3)] \<and>
   - (2 ^ 63) \<le> (3 :: int) \<and> (3 :: int) < 2 ^ 63 \<and>
   PeekVersion sample_session_env ''{"$version":3,"sessionStart":"soon"}'' = Inr 3 \<and>
   UnmarshalState sample_session_env ''{"$version":3,"sessionStart":"soon"}'' zeroState
     = Inl (UnmarshalTypeError ''sessionStart'') \<and>
   json_parse sample_session_env ''{"sessionId":"abc"}''
     = Some (JObject [(''sessionId'', JString ''abc'')]) \<and>
   filter (\<lambda>(k, v). findField (json_foldName sample_session_env) [''$version''] k \<noteq> None)
     [(''sessionId'', JString ''abc'')] = [] \<and>
   PeekVersion sample_session_env ''{"sessionId":"abc"}'' = Inr 1\<close>
proof -
  let ?d1 = \<open>''{"$version":3,"sessionStart":"soon"}''\<close>
  let ?m1 = "[(''$version'', JInt 3), (''sessionStart'', JString ''soon'')]"
  let ?d2 = \<open>''{"sessionId":"abc"}''\<close>
  let ?m2 = "[(''sessionId'', JString ''abc'')]"
  have p1: "json_parse sample_session_env ?d1 = Some (JObject ?m1)"
    by (simp add: sample_session_env_def sample_json_parse_def)
  have f1: "filter (\<lambda>(k, v). findField (json_foldName sample_session_env) [''$version''] k \<noteq> None)
              ?m1 = [(''$version'', JInt 3)]"
    by (simp add: sample_session_env_def findField_def)
  have r: "- (2 ^ 63) \<le> (3 :: int)" "(3 :: int) < 2 ^ 63" by simp_all
  have p2: "json_parse sample_session_env ?d2 = Some (JObject ?m2)"
    by (simp add: sample_session_env_def sample_json_parse_def)
  have f2: "filter (\<lambda>(k, v). findField (json_foldName sample_session_env) [''$version''] k \<noteq> None)
              ?m2 = []"
    by (simp add: sample_session_env_def findField_def)
  have u: "UnmarshalState sample_session_env ?d1 zeroState
             = Inl (UnmarshalTypeError ''sessionStart'')"
    using p1
    by (simp add: UnmarshalState_def Unmarshal_def sample_session_env_def findField_def
        stateFields_def setStateField_def decodeInt64_def decodeString_def)
  have a: "PeekVersion sample_session_env ?d1 = Inr 3"
    using PeekVersion_only_reads_version[of sample_session_env ?d1 ?m1 "''$version''" 3]
      p1 f1 r by simp
  have b: "PeekVersion sample_session_env ?d2 = Inr 1"
    using PeekVersion_only_reads_version[of sample_session_env ?d2 ?m2 "''$version''" 3]
      p2 f2 by blast
  from p1 f1 r a u p2 f2 b show ?thesis by blast
qed

subsection \<open>Properties of the migrations\<close>

text \<open>
  \<open>Run\<close> leaves the files alone and writes one \<open>applying migration\<close> record for each
  migration it applies.
\<close>

lemma runSorted_files: "files (snd (runSorted ms data version w)) = files w"
  by (induction ms data version w rule: runSorted.induct)
     (simp_all add: slog_def split: sum.splits)

lemma runSorted_logs:
  "\<exists>n\<le>length ms. logs (snd (runSorted ms data version w))
                    = logs w @ replicate n (''INFO'', ''applying migration'')"
proof (induction ms data version w rule: runSorted.induct)
  case (1 data version w)
  then show ?case by simp
next
  case (2 m ms data version w)
  let ?w1 = "slog ''INFO'' ''applying migration'' w"
  show ?case
  proof (cases "version <s mVersion m")
    case False
    with 2(2) obtain n where "n \<le> length ms"
      "logs (snd (runSorted ms data version w)) = logs w @ replicate n (''INFO'', ''applying migration'')"
      by blast
    then show ?thesis using False by (intro exI[of _ n]) simp
  next
    case True
    show ?thesis
    proof (cases "Upgrade m data")
      case (Inl e)
      then show ?thesis using True by (intro exI[of _ 1]) (simp add: slog_def)
    next
      case (Inr data')
      with 2(1) True obtain n where n: "n \<le> length ms"
        "logs (snd (runSorted ms data' (mVersion m) ?w1))
           = logs ?w1 @ replicate n (''INFO'', ''applying migration'')"
        by blast
      have "logs ?w1 @ replicate n (''INFO'', ''applying migration'')
              = logs w @ replicate (Suc n) (''INFO'', ''applying migration'')"
        by (simp add: slog_def)
      then show ?thesis using True Inr n by (intro exI[of _ "Suc n"]) simp
    qed
  qed
qed

text \<open>
  When the versions are pairwise different, what \<open>sort.Slice\<close> promises determines its
  result; with two migrations to the same version it does not, and the two orders make
  \<open>Run\<close> apply different migrations.
\<close>

lemma filter_eq_distinct: "distinct xs \<Longrightarrow> k \<in> set xs \<Longrightarrow> filter (\<lambda>x. k = x) xs = [k]"
  by (induction xs) (auto simp: filter_empty_conv)

lemma sortsByVersion_distinct:
  assumes "sortsByVersion f ms" and "distinct (map mVersion ms)"
  shows "f ms = sort_key (\<lambda>m. sint (mVersion m)) ms"
proof -
  let ?k = "\<lambda>m. sint (mVersion m)"
  have m: "mset (f ms) = mset ms" and s: "sorted (map ?k (f ms))"
    using assms(1) by (simp_all add: sortsByVersion_def)
  have inj: "inj_on mVersion (set ms)" and d: "distinct ms"
    using assms(2) by (simp_all add: distinct_map)
  have d': "distinct (f ms)" using m d by (metis distinct_count_atmost_1 set_mset_mset count_mset_0_iff mset_eq_setD) 
  have st: "set (f ms) = set ms" using m by (rule mset_eq_setD)
  have e: "\<And>k x. k \<in> set ms \<Longrightarrow> x \<in> set ms \<Longrightarrow> (?k k = ?k x) = (k = x)"
    using inj by (auto simp: inj_on_def signed_word_eqI)
  have fl: "\<And>k xs. k \<in> set ms \<Longrightarrow> set xs = set ms \<Longrightarrow> distinct xs \<Longrightarrow>
               filter (\<lambda>x. ?k k = ?k x) xs = [k]"
  proof -
    fix k xs assume a: "k \<in> set ms" "set xs = set ms" "distinct xs"
    have "filter (\<lambda>x. ?k k = ?k x) xs = filter (\<lambda>x. k = x) xs"
      using a e by (intro filter_cong refl) auto
    also have "\<dots> = [k]" using a by (simp add: filter_eq_distinct)
    finally show "filter (\<lambda>x. ?k k = ?k x) xs = [k]" .
  qed
  show ?thesis
  proof (rule properties_for_sort_key[symmetric])
    show "mset (f ms) = mset ms" by (rule m)
    show "sorted (map ?k (f ms))" by (rule s)
    fix k assume "k \<in> set (f ms)"
    then have k: "k \<in> set ms" using st by simp
    show "filter (\<lambda>x. ?k k = ?k x) (f ms) = filter (\<lambda>x. ?k k = ?k x) ms"
      using fl[OF k st d'] fl[OF k refl d] by simp
  qed
qed

lemma sortsByVersion_equal_versions:
  "sortsByVersion (\<lambda>ms. ms) [mig_a, mig_b] \<and> sortsByVersion rev [mig_a, mig_b]"
  by (simp add: sortsByVersion_def mig_a_def mig_b_def)

lemma Run_equal_versions:
  "fst (Run (\<lambda>ms. ms) ''x'' 1 [mig_a, mig_b] w) = Inr (''xa'', 2) \<and>
   fst (Run rev ''x'' 1 [mig_a, mig_b] w) = Inr (''xb'', 2) \<and>
   logs (snd (Run rev ''x'' 1 [mig_a, mig_b] w)) = logs w @ [(''INFO'', ''applying migration'')]"
  by (simp add: Run_def mig_a_def mig_b_def word_sless_alt slog_def)

subsection \<open>Properties of the state store\<close>

lemma applyMigrations_none [simp]: "applyMigrations env [] s data w = (Inr s, w)"
  by (simp add: applyMigrations_def)

lemma ReadState_corrupted:
  assumes "files w p = Some data" and "UnmarshalState env data zeroState = Inl e"
  shows "ReadState env p w = recoverCorruptedState env p data e w"
  using assms by (simp add: ReadState_def ReadStateWith_def)

lemma ReadState_future:
  assumes "files w p = Some data" and "UnmarshalState env data zeroState = Inr s"
    and "CurrentVersion <s Version s"
  shows "ReadState env p w
           = (ReadOk (fst (normalizeToCurrentVersion env s p data w)),
              snd (normalizeToCurrentVersion env s p data w))"
proof -
  have "Version s \<noteq> 0" using assms(3) by (auto simp: CurrentVersion_def word_sless_alt)
  then show ?thesis
    using assms
    by (simp add: ReadState_def ReadStateWith_def StateMigrations_def split: prod.splits)
qed

lemma recoverCorruptedState_result:
  "fst (recoverCorruptedState env p data e w)
     = ReadRecovered (zeroState\<lparr>Version := CurrentVersion\<rparr>)
         (CorruptedStateFile (p @ ''.corrupted'') e)"
  by (simp add: recoverCorruptedState_def Let_def)

lemma recoverCorruptedState_backup:
  "WriteFile_error env (p @ ''.corrupted'') = None \<Longrightarrow>
   files (snd (recoverCorruptedState env p data e w)) (p @ ''.corrupted'') = Some data"
  by (simp add: recoverCorruptedState_def Let_def os_WriteFile_def saveState_def
      atomicfile_Write_def slog_def split: option.splits)

lemma recoverCorruptedState_fresh:
  "atomicfile_error env p = None \<Longrightarrow>
   files (snd (recoverCorruptedState env p data e w)) p
     = Some (json_Marshal_State env (zeroState\<lparr>Version := CurrentVersion\<rparr>))"
  by (simp add: recoverCorruptedState_def Let_def os_WriteFile_def saveState_def
      atomicfile_Write_def slog_def split: option.splits)

lemma recoverCorruptedState_backup_failed:
  "WriteFile_error env (p @ ''.corrupted'') \<noteq> None \<Longrightarrow>
   (''WARN'', ''failed to write backup'') \<in> set (logs (snd (recoverCorruptedState env p data e w)))"
  by (auto simp: recoverCorruptedState_def Let_def os_WriteFile_def saveState_def
      atomicfile_Write_def slog_def split: option.splits)

lemma recoverCorruptedState_save_failed:
  "atomicfile_error env p \<noteq> None \<Longrightarrow>
   (''WARN'', ''failed to save fresh state'')
     \<in> set (logs (snd (recoverCorruptedState env p data e w)))"
  by (auto simp: recoverCorruptedState_def Let_def os_WriteFile_def saveState_def
      atomicfile_Write_def slog_def split: option.splits)



lemma normalizeToCurrentVersion_state:
  "fst (normalizeToCurrentVersion env s p data w) = s\<lparr>Version := CurrentVersion\<rparr>"
  by (simp add: normalizeToCurrentVersion_def Let_def)

lemma normalizeToCurrentVersion_backup:
  "WriteFile_error env (p @ ''.v'' @ FormatInt (sint (Version s)) @ ''.bak'') = None \<Longrightarrow>
   files (snd (normalizeToCurrentVersion env s p data w))
     (p @ ''.v'' @ FormatInt (sint (Version s)) @ ''.bak'') = Some data"
  by (simp add: normalizeToCurrentVersion_def Let_def os_WriteFile_def saveState_def
      atomicfile_Write_def slog_def split: option.splits)

lemma normalizeToCurrentVersion_rewrite:
  "atomicfile_error env p = None \<Longrightarrow>
   files (snd (normalizeToCurrentVersion env s p data w)) p
     = Some (json_Marshal_State env (s\<lparr>Version := CurrentVersion\<rparr>))"
  by (simp add: normalizeToCurrentVersion_def Let_def os_WriteFile_def saveState_def
      atomicfile_Write_def slog_def split: option.splits)

lemma normalizeToCurrentVersion_backup_failed:
  "WriteFile_error env (p @ ''.v'' @ FormatInt (sint (Version s)) @ ''.bak'') \<noteq> None \<Longrightarrow>
   (''WARN'', ''failed to write backup'')
     \<in> set (logs (snd (normalizeToCurrentVersion env s p data w)))"
  by (auto simp: normalizeToCurrentVersion_def Let_def os_WriteFile_def saveState_def
      atomicfile_Write_def slog_def split: option.splits)

lemma normalizeToCurrentVersion_save_failed:
  "atomicfile_error env p \<noteq> None \<Longrightarrow>
   (''WARN'', ''failed to save normalized state'')
     \<in> set (logs (snd (normalizeToCurrentVersion env s p data w)))"
  by (auto simp: normalizeToCurrentVersion_def Let_def os_WriteFile_def saveState_def
      atomicfile_Write_def slog_def split: option.splits)

text \<open>
  C3 (corruption recovery), as the code has it.  When the file at the path can be read
  and its contents fail to unmarshal, \<open>ReadState\<close> returns the fresh state (zero value
  with the current version) together with the corruption error, always.  The raw bytes
  are at \<open><path>.corrupted\<close> afterwards if that write succeeded, and the fresh state is
  at the path if that write succeeded; a write that fails leaves a warning in the log
  and does not change what is returned.
\<close>

theorem ReadState_corruption_recovery:
  "files w p = Some data \<and> UnmarshalState env data zeroState = Inl e \<longrightarrow>
   (\<exists>w'. ReadState env p w
            = (ReadRecovered (zeroState\<lparr>Version := CurrentVersion\<rparr>)
                 (CorruptedStateFile (p @ ''.corrupted'') e), w') \<and>
      (WriteFile_error env (p @ ''.corrupted'') = None \<longrightarrow>
         files w' (p @ ''.corrupted'') = Some data) \<and>
      (atomicfile_error env p = None \<longrightarrow>
         files w' p = Some (json_Marshal_State env (zeroState\<lparr>Version := CurrentVersion\<rparr>))) \<and>
      (WriteFile_error env (p @ ''.corrupted'') \<noteq> None \<longrightarrow>
         (''WARN'', ''failed to write backup'') \<in> set (logs w')) \<and>
      (atomicfile_error env p \<noteq> None \<longrightarrow>
         (''WARN'', ''failed to save fresh state'') \<in> set (logs w')))"
proof
  assume a: "files w p = Some data \<and> UnmarshalState env data zeroState = Inl e"
  let ?r = "recoverCorruptedState env p data e w"
  have "ReadState env p w = (fst ?r, snd ?r)"
    using a by (simp add: ReadState_corrupted)
  then have "ReadState env p w
               = (ReadRecovered (zeroState\<lparr>Version := CurrentVersion\<rparr>)
                    (CorruptedStateFile (p @ ''.corrupted'') e), snd ?r)"
    by (simp only: recoverCorruptedState_result)
  moreover have "WriteFile_error env (p @ ''.corrupted'') = None \<longrightarrow>
         files (snd ?r) (p @ ''.corrupted'') = Some data"
    using recoverCorruptedState_backup[of env p data e w] by simp
  moreover have "atomicfile_error env p = None \<longrightarrow>
         files (snd ?r) p
           = Some (json_Marshal_State env (zeroState\<lparr>Version := CurrentVersion\<rparr>))"
    using recoverCorruptedState_fresh[of env p data e w] by simp
  moreover have "WriteFile_error env (p @ ''.corrupted'') \<noteq> None \<longrightarrow>
         (''WARN'', ''failed to write backup'') \<in> set (logs (snd ?r))"
    using recoverCorruptedState_backup_failed[of env p data e w] by simp
  moreover have "atomicfile_error env p \<noteq> None \<longrightarrow>
         (''WARN'', ''failed to save fresh state'') \<in> set (logs (snd ?r))"
    using recoverCorruptedState_save_failed[of env p data e w] by simp
  ultimately show "\<exists>w'. ReadState env p w
            = (ReadRecovered (zeroState\<lparr>Version := CurrentVersion\<rparr>)
                 (CorruptedStateFile (p @ ''.corrupted'') e), w') \<and>
      (WriteFile_error env (p @ ''.corrupted'') = None \<longrightarrow>
         files w' (p @ ''.corrupted'') = Some data) \<and>
      (atomicfile_error env p = None \<longrightarrow>
         files w' p = Some (json_Marshal_State env (zeroState\<lparr>Version := CurrentVersion\<rparr>))) \<and>
      (WriteFile_error env (p @ ''.corrupted'') \<noteq> None \<longrightarrow>
         (''WARN'', ''failed to write backup'') \<in> set (logs w')) \<and>
      (atomicfile_error env p \<noteq> None \<longrightarrow>
         (''WARN'', ''failed to save fresh state'') \<in> set (logs w'))"
    by (intro exI[of _ "snd ?r"] conjI)
qed

lemma corrupt_world_setup:
  "files corrupt_world ''/d/state.json'' = Some ''{this is not valid json''"
  "UnmarshalState sample_session_env ''{this is not valid json'' zeroState = Inl SyntaxError"
  "UnmarshalState nobackup_session_env ''{this is not valid json'' zeroState = Inl SyntaxError"
  "UnmarshalState readonly_session_env ''{this is not valid json'' zeroState = Inl SyntaxError"
  by (simp_all add: corrupt_world_def UnmarshalState_def Unmarshal_def sample_session_env_def
      nobackup_session_env_def readonly_session_env_def sample_json_parse_def)

theorem ReadState_corruption_recovery_witness:
  "files corrupt_world ''/d/state.json'' = Some ''{this is not valid json'' \<and>
   UnmarshalState sample_session_env ''{this is not valid json'' zeroState = Inl SyntaxError \<and>
   WriteFile_error sample_session_env ''/d/state.json.corrupted'' = None \<and>
   atomicfile_error sample_session_env ''/d/state.json'' = None \<and>
   fst (ReadState sample_session_env ''/d/state.json'' corrupt_world)
     = ReadRecovered (zeroState\<lparr>Version := CurrentVersion\<rparr>)
         (CorruptedStateFile ''/d/state.json.corrupted'' SyntaxError) \<and>
   files (snd (ReadState sample_session_env ''/d/state.json'' corrupt_world))
     ''/d/state.json.corrupted'' = Some ''{this is not valid json'' \<and>
   files (snd (ReadState sample_session_env ''/d/state.json'' corrupt_world)) ''/d/state.json''
     = Some (json_Marshal_State sample_session_env (zeroState\<lparr>Version := CurrentVersion\<rparr>)) \<and>
   WriteFile_error readonly_session_env ''/d/state.json.corrupted'' \<noteq> None \<and>
   atomicfile_error readonly_session_env ''/d/state.json'' \<noteq> None \<and>
   (''WARN'', ''failed to write backup'')
     \<in> set (logs (snd (ReadState readonly_session_env ''/d/state.json'' corrupt_world))) \<and>
   (''WARN'', ''failed to save fresh state'')
     \<in> set (logs (snd (ReadState readonly_session_env ''/d/state.json'' corrupt_world)))"
proof -
  have w1: "WriteFile_error sample_session_env ''/d/state.json.corrupted'' = None"
    and w2: "atomicfile_error sample_session_env ''/d/state.json'' = None"
    by (simp_all add: sample_session_env_def)
  have r1: "WriteFile_error readonly_session_env ''/d/state.json.corrupted'' \<noteq> None"
    and r2: "atomicfile_error readonly_session_env ''/d/state.json'' \<noteq> None"
    by (simp_all add: readonly_session_env_def)
  have app: "''/d/state.json'' @ ''.corrupted'' = ''/d/state.json.corrupted''" by simp
  note t1 = ReadState_corruption_recovery
      [of corrupt_world "''/d/state.json''" "''{this is not valid json''"
          sample_session_env SyntaxError, unfolded app]
  note t2 = ReadState_corruption_recovery
      [of corrupt_world "''/d/state.json''" "''{this is not valid json''"
          readonly_session_env SyntaxError, unfolded app]
  from t1 corrupt_world_setup(1,2) w1 w2 obtain wa where
    a: "ReadState sample_session_env ''/d/state.json'' corrupt_world
          = (ReadRecovered (zeroState\<lparr>Version := CurrentVersion\<rparr>)
               (CorruptedStateFile ''/d/state.json.corrupted'' SyntaxError), wa)"
      "files wa ''/d/state.json.corrupted'' = Some ''{this is not valid json''"
      "files wa ''/d/state.json''
         = Some (json_Marshal_State sample_session_env (zeroState\<lparr>Version := CurrentVersion\<rparr>))"
    by blast
  from t2 corrupt_world_setup(1,4) r1 r2 obtain wb where
    b: "ReadState readonly_session_env ''/d/state.json'' corrupt_world
          = (ReadRecovered (zeroState\<lparr>Version := CurrentVersion\<rparr>)
               (CorruptedStateFile ''/d/state.json.corrupted'' SyntaxError), wb)"
      "(''WARN'', ''failed to write backup'') \<in> set (logs wb)"
      "(''WARN'', ''failed to save fresh state'') \<in> set (logs wb)"
    by blast
  from a b corrupt_world_setup(1,2) w1 w2 r1 r2 show ?thesis by simp
qed

text \<open>
  Where the backup cannot be written the statement of the spec does not hold: the read
  still returns the fresh state and the error, the fresh state replaces the file, and
  no \<open>.corrupted\<close> file holds the original bytes.
\<close>

theorem ReadState_corruption_counterexample:
  "files corrupt_world ''/d/state.json'' = Some ''{this is not valid json'' \<and>
   UnmarshalState nobackup_session_env ''{this is not valid json'' zeroState = Inl SyntaxError \<and>
   files (snd (ReadState nobackup_session_env ''/d/state.json'' corrupt_world))
     ''/d/state.json.corrupted'' = None \<and>
   files (snd (ReadState nobackup_session_env ''/d/state.json'' corrupt_world)) ''/d/state.json''
     \<noteq> Some ''{this is not valid json''"
proof -
  have "ReadState nobackup_session_env ''/d/state.json'' corrupt_world
          = recoverCorruptedState nobackup_session_env ''/d/state.json''
              ''{this is not valid json'' SyntaxError corrupt_world"
    using corrupt_world_setup(1,3) by (rule ReadState_corrupted)
  then show ?thesis
    using corrupt_world_setup(1,3)
    by (simp add: recoverCorruptedState_def Let_def os_WriteFile_def saveState_def
        atomicfile_Write_def slog_def nobackup_session_env_def sample_session_env_def
        corrupt_world_def sample_marshal_def)
qed



text \<open>
  C4 (future-version normalization), as the code has it.  When the file parses and its
  version \<open>N\<close> is above the current version, \<open>ReadState\<close> returns the parsed state with
  the version reset to the current one and no error, always.  The raw bytes are at
  \<open><path>.v<N>.bak\<close> afterwards if that write succeeded, and the normalized record is
  at the path if that write succeeded; a write that fails leaves a warning in the log
  and does not change what is returned.
\<close>

theorem ReadState_future_version:
  "files w p = Some data \<and> UnmarshalState env data zeroState = Inr s \<and>
   CurrentVersion <s Version s \<longrightarrow>
   (\<exists>w'. ReadState env p w = (ReadOk (s\<lparr>Version := CurrentVersion\<rparr>), w') \<and>
      (WriteFile_error env (p @ ''.v'' @ FormatInt (sint (Version s)) @ ''.bak'') = None \<longrightarrow>
         files w' (p @ ''.v'' @ FormatInt (sint (Version s)) @ ''.bak'') = Some data) \<and>
      (atomicfile_error env p = None \<longrightarrow>
         files w' p = Some (json_Marshal_State env (s\<lparr>Version := CurrentVersion\<rparr>))) \<and>
      (WriteFile_error env (p @ ''.v'' @ FormatInt (sint (Version s)) @ ''.bak'') \<noteq> None \<longrightarrow>
         (''WARN'', ''failed to write backup'') \<in> set (logs w')) \<and>
      (atomicfile_error env p \<noteq> None \<longrightarrow>
         (''WARN'', ''failed to save normalized state'') \<in> set (logs w')))"
proof
  assume a: "files w p = Some data \<and> UnmarshalState env data zeroState = Inr s \<and>
   CurrentVersion <s Version s"
  let ?r = "normalizeToCurrentVersion env s p data w"
  let ?bak = "p @ ''.v'' @ FormatInt (sint (Version s)) @ ''.bak''"
  have "ReadState env p w = (ReadOk (s\<lparr>Version := CurrentVersion\<rparr>), snd ?r)"
    using a by (simp add: ReadState_future normalizeToCurrentVersion_state)
  moreover have "WriteFile_error env ?bak = None \<longrightarrow> files (snd ?r) ?bak = Some data"
    using normalizeToCurrentVersion_backup[of env p s data w] by simp
  moreover have "atomicfile_error env p = None \<longrightarrow>
         files (snd ?r) p = Some (json_Marshal_State env (s\<lparr>Version := CurrentVersion\<rparr>))"
    using normalizeToCurrentVersion_rewrite[of env p s data w] by simp
  moreover have "WriteFile_error env ?bak \<noteq> None \<longrightarrow>
         (''WARN'', ''failed to write backup'') \<in> set (logs (snd ?r))"
    using normalizeToCurrentVersion_backup_failed[of env p s data w] by simp
  moreover have "atomicfile_error env p \<noteq> None \<longrightarrow>
         (''WARN'', ''failed to save normalized state'') \<in> set (logs (snd ?r))"
    using normalizeToCurrentVersion_save_failed[of env p s data w] by simp
  ultimately show "\<exists>w'. ReadState env p w = (ReadOk (s\<lparr>Version := CurrentVersion\<rparr>), w') \<and>
      (WriteFile_error env ?bak = None \<longrightarrow> files w' ?bak = Some data) \<and>
      (atomicfile_error env p = None \<longrightarrow>
         files w' p = Some (json_Marshal_State env (s\<lparr>Version := CurrentVersion\<rparr>))) \<and>
      (WriteFile_error env ?bak \<noteq> None \<longrightarrow>
         (''WARN'', ''failed to write backup'') \<in> set (logs w')) \<and>
      (atomicfile_error env p \<noteq> None \<longrightarrow>
         (''WARN'', ''failed to save normalized state'') \<in> set (logs w'))"
    by (intro exI[of _ "snd ?r"] conjI)
qed

lemma future_world_setup:
  \<open>files future_world ''/d/state.json''
     = Some ''{"$version":999,"sessionId":"future-abc","lastActivity":50}''\<close>
  \<open>UnmarshalState sample_session_env
       ''{"$version":999,"sessionId":"future-abc","lastActivity":50}'' zeroState
     = Inr (zeroState\<lparr>Version := 999, SessionID := ''future-abc'', LastActivity := 50\<rparr>)\<close>
  \<open>UnmarshalState nobackup_session_env
       ''{"$version":999,"sessionId":"future-abc","lastActivity":50}'' zeroState
     = Inr (zeroState\<lparr>Version := 999, SessionID := ''future-abc'', LastActivity := 50\<rparr>)\<close>
  \<open>UnmarshalState readonly_session_env
       ''{"$version":999,"sessionId":"future-abc","lastActivity":50}'' zeroState
     = Inr (zeroState\<lparr>Version := 999, SessionID := ''future-abc'', LastActivity := 50\<rparr>)\<close>
  "CurrentVersion <s
     Version (zeroState\<lparr>Version := 999, SessionID := ''future-abc'', LastActivity := 50\<rparr>)"
  "''/d/state.json'' @ ''.v''
     @ FormatInt (sint (Version (zeroState\<lparr>Version := 999, SessionID := ''future-abc'',
                                         LastActivity := 50\<rparr>))) @ ''.bak''
     = ''/d/state.json.v999.bak''"
  by (simp_all add: future_world_def UnmarshalState_def Unmarshal_def sample_session_env_def
      nobackup_session_env_def readonly_session_env_def sample_json_parse_def
      findField_def stateFields_def setStateField_def decodeInt64_def decodeString_def
      CurrentVersion_def word_sless_alt FormatInt_def FormatUint.simps digit_def)



theorem ReadState_future_version_witness:
  \<open>files future_world ''/d/state.json''
     = Some ''{"$version":999,"sessionId":"future-abc","lastActivity":50}'' \<and>
   UnmarshalState sample_session_env
       ''{"$version":999,"sessionId":"future-abc","lastActivity":50}'' zeroState
     = Inr (zeroState\<lparr>Version := 999, SessionID := ''future-abc'', LastActivity := 50\<rparr>) \<and>
   CurrentVersion <s
     Version (zeroState\<lparr>Version := 999, SessionID := ''future-abc'', LastActivity := 50\<rparr>) \<and>
   WriteFile_error sample_session_env ''/d/state.json.v999.bak'' = None \<and>
   atomicfile_error sample_session_env ''/d/state.json'' = None \<and>
   fst (ReadState sample_session_env ''/d/state.json'' future_world)
     = ReadOk (zeroState\<lparr>Version := 999, SessionID := ''future-abc'', LastActivity := 50,
                          Version := CurrentVersion\<rparr>) \<and>
   files (snd (ReadState sample_session_env ''/d/state.json'' future_world))
     ''/d/state.json.v999.bak''
     = Some ''{"$version":999,"sessionId":"future-abc","lastActivity":50}'' \<and>
   files (snd (ReadState sample_session_env ''/d/state.json'' future_world)) ''/d/state.json''
     = Some ''{"$version":1,"sessionId":"future-abc"}'' \<and>
   WriteFile_error readonly_session_env ''/d/state.json.v999.bak'' \<noteq> None \<and>
   atomicfile_error readonly_session_env ''/d/state.json'' \<noteq> None \<and>
   (''WARN'', ''failed to write backup'')
     \<in> set (logs (snd (ReadState readonly_session_env ''/d/state.json'' future_world))) \<and>
   (''WARN'', ''failed to save normalized state'')
     \<in> set (logs (snd (ReadState readonly_session_env ''/d/state.json'' future_world)))\<close>
proof -
  let ?data = \<open>''{"$version":999,"sessionId":"future-abc","lastActivity":50}''\<close>
  let ?s = "zeroState\<lparr>Version := 999, SessionID := ''future-abc'', LastActivity := 50\<rparr>"
  have w1: "WriteFile_error sample_session_env ''/d/state.json.v999.bak'' = None"
    and w2: "atomicfile_error sample_session_env ''/d/state.json'' = None"
    by (simp_all add: sample_session_env_def)
  have r1: "WriteFile_error readonly_session_env ''/d/state.json.v999.bak'' \<noteq> None"
    and r2: "atomicfile_error readonly_session_env ''/d/state.json'' \<noteq> None"
    by (simp_all add: readonly_session_env_def)
  have m: \<open>json_Marshal_State sample_session_env (?s\<lparr>Version := CurrentVersion\<rparr>)
             = ''{"$version":1,"sessionId":"future-abc"}''\<close>
    by (simp add: sample_session_env_def sample_marshal_def zeroState_def CurrentVersion_def
        FormatInt_def FormatUint.simps digit_def)
  note t1 = ReadState_future_version
      [of future_world "''/d/state.json''" ?data sample_session_env ?s,
       unfolded future_world_setup(6) m]
  note t2 = ReadState_future_version
      [of future_world "''/d/state.json''" ?data readonly_session_env ?s,
       unfolded future_world_setup(6)]
  from t1 future_world_setup(1,2,5) w1 w2 obtain wa where
    a: "ReadState sample_session_env ''/d/state.json'' future_world
          = (ReadOk (?s\<lparr>Version := CurrentVersion\<rparr>), wa)"
      "files wa ''/d/state.json.v999.bak'' = Some ?data"
      \<open>files wa ''/d/state.json'' = Some ''{"$version":1,"sessionId":"future-abc"}''\<close>
    by blast
  from t2 future_world_setup(1,4,5) r1 r2 obtain wb where
    b: "ReadState readonly_session_env ''/d/state.json'' future_world
          = (ReadOk (?s\<lparr>Version := CurrentVersion\<rparr>), wb)"
      "(''WARN'', ''failed to write backup'') \<in> set (logs wb)"
      "(''WARN'', ''failed to save normalized state'') \<in> set (logs wb)"
    by blast
  from a b future_world_setup(1,2,5) w1 w2 r1 r2 show ?thesis by simp
qed

text \<open>
  Where the backup cannot be written the statement of the spec does not hold: the read
  returns the normalized state with no error and the record on disk is rewritten, but
  there is no \<open>.v999.bak\<close> file and the original bytes are gone.
\<close>

theorem ReadState_future_version_counterexample:
  \<open>files future_world ''/d/state.json''
     = Some ''{"$version":999,"sessionId":"future-abc","lastActivity":50}'' \<and>
   UnmarshalState nobackup_session_env
       ''{"$version":999,"sessionId":"future-abc","lastActivity":50}'' zeroState
     = Inr (zeroState\<lparr>Version := 999, SessionID := ''future-abc'', LastActivity := 50\<rparr>) \<and>
   CurrentVersion <s
     Version (zeroState\<lparr>Version := 999, SessionID := ''future-abc'', LastActivity := 50\<rparr>) \<and>
   files (snd (ReadState nobackup_session_env ''/d/state.json'' future_world))
     ''/d/state.json.v999.bak'' = None \<and>
   files (snd (ReadState nobackup_session_env ''/d/state.json'' future_world)) ''/d/state.json''
     = Some ''{"$version":1,"sessionId":"future-abc"}''\<close>
proof -
  let ?data = \<open>''{"$version":999,"sessionId":"future-abc","lastActivity":50}''\<close>
  let ?s = "zeroState\<lparr>Version := 999, SessionID := ''future-abc'', LastActivity := 50\<rparr>"
  have "ReadState nobackup_session_env ''/d/state.json'' future_world
          = (ReadOk (fst (normalizeToCurrentVersion nobackup_session_env ?s ''/d/state.json''
                           ?data future_world)),
             snd (normalizeToCurrentVersion nobackup_session_env ?s ''/d/state.json''
                           ?data future_world))"
    using future_world_setup(1,3,5) by (rule ReadState_future)
  moreover have "files (snd (normalizeToCurrentVersion nobackup_session_env ?s ''/d/state.json''
                           ?data future_world)) ''/d/state.json.v999.bak'' = None"
    by (simp add: normalizeToCurrentVersion_def Let_def os_WriteFile_def saveState_def
        atomicfile_Write_def slog_def nobackup_session_env_def sample_session_env_def
        future_world_def)
  moreover have \<open>files (snd (normalizeToCurrentVersion nobackup_session_env ?s ''/d/state.json''
                           ?data future_world)) ''/d/state.json''
                   = Some ''{"$version":1,"sessionId":"future-abc"}''\<close>
    by (simp add: normalizeToCurrentVersion_def Let_def os_WriteFile_def saveState_def
        atomicfile_Write_def slog_def nobackup_session_env_def sample_session_env_def
        future_world_def sample_marshal_def zeroState_def CurrentVersion_def
        FormatInt_def FormatUint.simps digit_def)
  ultimately show ?thesis
    using future_world_setup(1,3,5) by simp
qed


subsection \<open>Properties of the multi-client resolution\<close>

lemma ReadState_unfold:
  "ReadState env p w =
     (case files w p of
        None \<Rightarrow> (ReadFailed ReadingStateFile, w)
      | Some data \<Rightarrow>
          (case UnmarshalState env data zeroState of
             Inl e \<Rightarrow> recoverCorruptedState env p data e w
           | Inr s0 \<Rightarrow>
               (let s1 = (if Version s0 = 0 then s0\<lparr>Version := 1\<rparr> else s0)
                in if CurrentVersion <s Version s1
                   then (ReadOk (s1\<lparr>Version := CurrentVersion\<rparr>),
                         snd (normalizeToCurrentVersion env s1 p data w))
                   else (ReadOk s1, w))))"
  by (simp add: ReadState_def ReadStateWith_def StateMigrations_def Let_def
      normalizeToCurrentVersion_state split_beta
      split: option.splits sum.splits)

lemma recoverCorruptedState_frame:
  "q \<noteq> p \<Longrightarrow> q \<noteq> p @ ''.corrupted'' \<Longrightarrow>
   files (snd (recoverCorruptedState env p data e w)) q = files w q"
  by (simp add: recoverCorruptedState_def Let_def os_WriteFile_def saveState_def
      atomicfile_Write_def slog_def split: option.splits)

lemma normalizeToCurrentVersion_frame:
  "q \<noteq> p \<Longrightarrow> q \<noteq> p @ ''.v'' @ FormatInt (sint (Version s)) @ ''.bak'' \<Longrightarrow>
   files (snd (normalizeToCurrentVersion env s p data w)) q = files w q"
  by (simp add: normalizeToCurrentVersion_def Let_def os_WriteFile_def saveState_def
      atomicfile_Write_def slog_def split: option.splits)

text \<open>What \<open>ReadState\<close> returns depends on the world only through the file at the path.\<close>

lemma ReadState_result_files:
  assumes "files w1 p = files w2 p"
  shows "fst (ReadState env p w1) = fst (ReadState env p w2)"
proof (cases "files w2 p")
  case None
  then show ?thesis using assms by (simp add: ReadState_unfold)
next
  case (Some data)
  show ?thesis
  proof (cases "UnmarshalState env data zeroState")
    case (Inl e)
    then show ?thesis using assms Some
      by (simp add: ReadState_unfold recoverCorruptedState_result)
  next
    case (Inr s0)
    then show ?thesis using assms Some
      by (simp add: ReadState_unfold Let_def)
  qed
qed

text \<open>
  \<open>ReadState\<close> writes only the path itself, \<open><path>.corrupted\<close> and
  \<open><path>.v<N>.bak\<close>, so it leaves every other file whose name ends in \<open>.json\<close> alone.
\<close>

lemma json_suffix_last: "suffix ''.json'' q \<Longrightarrow> last q = CHR ''n''"
  by (auto simp: suffix_def)

lemma backup_paths_not_json:
  assumes "suffix ''.json'' q"
  shows "q \<noteq> p @ ''.corrupted''" and "q \<noteq> p @ ''.v'' @ x @ ''.bak''"
proof -
  have l: "last q = CHR ''n''" using assms by (rule json_suffix_last)
  have "last (p @ ''.corrupted'') = CHR ''d''" by simp
  with l show "q \<noteq> p @ ''.corrupted''" by auto
  have "last (p @ ''.v'' @ x @ ''.bak'') = CHR ''k''" by simp
  with l show "q \<noteq> p @ ''.v'' @ x @ ''.bak''" by auto
qed

lemma ReadState_frame:
  assumes "q \<noteq> p" and "suffix ''.json'' q"
  shows "files (snd (ReadState env p w)) q = files w q"
proof (cases "files w p")
  case None
  then show ?thesis by (simp add: ReadState_unfold)
next
  case (Some data)
  show ?thesis
  proof (cases "UnmarshalState env data zeroState")
    case (Inl e)
    then show ?thesis using assms Some backup_paths_not_json(1)[OF assms(2)]
      by (simp add: ReadState_unfold recoverCorruptedState_frame)
  next
    case (Inr s0)
    then show ?thesis using assms Some backup_paths_not_json(2)[OF assms(2)]
      by (simp add: ReadState_unfold Let_def normalizeToCurrentVersion_frame)
  qed
qed

text \<open>A read that yields no state has written nothing.\<close>

lemma ReadState_failed_world:
  assumes "fst (ReadState env p w) = ReadFailed e"
  shows "snd (ReadState env p w) = w"
proof (cases "files w p")
  case None
  then show ?thesis by (simp add: ReadState_unfold)
next
  case (Some data)
  show ?thesis
  proof (cases "UnmarshalState env data zeroState")
    case (Inl e)
    then show ?thesis using assms Some
      by (simp add: ReadState_unfold recoverCorruptedState_result)
  next
    case (Inr s0)
    then show ?thesis using assms Some
      by (simp add: ReadState_unfold Let_def split: if_splits)
  qed
qed

lemma files_slog [simp]: "files (slog level msg w) = files w"
  by (simp add: slog_def)

text \<open>
  The scan computes the fold of \<open>better\<close> over the states that the matched files yield,
  each as \<open>ReadState\<close> reads it in the world the scan started from: the writes of one
  read do not reach the files of the later ones.
\<close>

lemma scanStates_fst:
  "distinct ps \<Longrightarrow> \<forall>p\<in>set ps. suffix ''.json'' p \<Longrightarrow>
   \<forall>q\<in>set ps. files w' q = files w q \<Longrightarrow>
   fst (scanStates env ps best w')
     = foldl better best (List.map_filter (\<lambda>p. result_state (fst (ReadState env p w))) ps)"
proof (induction ps arbitrary: best w')
  case Nil
  then show ?case by (simp add: List.map_filter_simps)
next
  case (Cons p ps)
  obtain r w'' where rw: "ReadState env p w' = (r, w'')" by (cases "ReadState env p w'")
  have r: "fst (ReadState env p w) = r"
    using ReadState_result_files[of w' p w env] Cons.prems(3) rw by simp
  have fr: "\<forall>q\<in>set ps. files w'' q = files w q"
  proof
    fix q assume q: "q \<in> set ps"
    then have "q \<noteq> p" "suffix ''.json'' q" using Cons.prems(1,2) by auto
    then have "files (snd (ReadState env p w')) q = files w' q" by (rule ReadState_frame)
    then show "files w'' q = files w q" using rw q Cons.prems(3) by simp
  qed
  have d: "distinct ps" "\<forall>p\<in>set ps. suffix ''.json'' p" using Cons.prems by auto
  show ?case
  proof (cases r)
    case (ReadFailed e)
    have "\<forall>q\<in>set ps. files (slog ''DEBUG'' ''skipping unreadable state file'' w'') q = files w q"
      using fr by simp
    from Cons.IH[OF d this] show ?thesis
      using rw r ReadFailed by (simp add: List.map_filter_simps)
  next
    case (ReadOk s)
    from Cons.IH[OF d fr] show ?thesis
      using rw r ReadOk by (simp add: List.map_filter_simps)
  next
    case (ReadRecovered s e)
    from Cons.IH[OF d fr] show ?thesis
      using rw r ReadRecovered by (simp add: List.map_filter_simps)
  qed
qed

lemma scanStates_all_failed:
  "\<forall>p\<in>set ps. result_state (fst (ReadState env p w)) = None \<Longrightarrow>
   files (snd (scanStates env ps best w)) = files w"
proof (induction ps arbitrary: best w)
  case Nil
  then show ?case by simp
next
  case (Cons p ps)
  from Cons.prems obtain e where e: "fst (ReadState env p w) = ReadFailed e"
    by (cases "fst (ReadState env p w)") auto
  then have w: "snd (ReadState env p w) = w" by (rule ReadState_failed_world)
  have rw: "ReadState env p w = (ReadFailed e, w)" using e w by (metis prod.collapse)
  let ?w = "slog ''DEBUG'' ''skipping unreadable state file'' w"
  have "\<forall>q\<in>set ps. result_state (fst (ReadState env q ?w)) = None"
    using Cons.prems ReadState_result_files[of ?w _ w env] by simp
  from Cons.IH[OF this] show ?case using rw by simp
qed

lemma better_None: "better None s = Some s"
  by (simp add: better_def)

lemma better_Some:
  "better (Some b) s = Some (if LastActivity b <s LastActivity s then s else b)"
  by (simp add: better_def)

lemma foldl_better_Some:
  "\<exists>b. foldl better (Some b0) ys = Some b \<and> (b = b0 \<or> b \<in> set ys) \<and>
        sint (LastActivity b0) \<le> sint (LastActivity b) \<and>
        (\<forall>s\<in>set ys. sint (LastActivity s) \<le> sint (LastActivity b))"
proof (induction ys arbitrary: b0)
  case Nil
  then show ?case by simp
next
  case (Cons y ys)
  show ?case
  proof (cases "LastActivity b0 <s LastActivity y")
    case True
    from Cons.IH[of y] obtain b where
      "foldl better (Some y) ys = Some b" "b = y \<or> b \<in> set ys"
      "sint (LastActivity y) \<le> sint (LastActivity b)"
      "\<forall>s\<in>set ys. sint (LastActivity s) \<le> sint (LastActivity b)" by blast
    with True show ?thesis by (auto simp: better_Some word_sless_alt)
  next
    case False
    from Cons.IH[of b0] obtain b where
      "foldl better (Some b0) ys = Some b" "b = b0 \<or> b \<in> set ys"
      "sint (LastActivity b0) \<le> sint (LastActivity b)"
      "\<forall>s\<in>set ys. sint (LastActivity s) \<le> sint (LastActivity b)" by blast
    with False show ?thesis by (auto simp: better_Some word_sless_alt)
  qed
qed

lemma foldl_better_None:
  "ys \<noteq> [] \<Longrightarrow>
   \<exists>b. foldl better None ys = Some b \<and> b \<in> set ys \<and>
        (\<forall>s\<in>set ys. sint (LastActivity s) \<le> sint (LastActivity b))"
proof (cases ys)
  case Nil
  assume "ys \<noteq> []" with Nil show ?thesis by simp
next
  case (Cons y ys')
  from foldl_better_Some[of y ys'] obtain b where
    "foldl better (Some y) ys' = Some b" "b = y \<or> b \<in> set ys'"
    "sint (LastActivity y) \<le> sint (LastActivity b)"
    "\<forall>s\<in>set ys'. sint (LastActivity s) \<le> sint (LastActivity b)" by blast
  with Cons show ?thesis by (auto simp: better_None)
qed

text \<open>A state whose time is strictly above all the others is the result wherever it stands.\<close>

lemma foldl_better_unique_Some:
  "(b0 = b \<or> b \<in> set ys) \<Longrightarrow>
   (b0 \<noteq> b \<longrightarrow> sint (LastActivity b0) < sint (LastActivity b)) \<Longrightarrow>
   \<forall>s\<in>set ys. s \<noteq> b \<longrightarrow> sint (LastActivity s) < sint (LastActivity b) \<Longrightarrow>
   foldl better (Some b0) ys = Some b"
proof (induction ys arbitrary: b0)
  case Nil
  then show ?case by simp
next
  case (Cons y ys)
  let ?n = "if LastActivity b0 <s LastActivity y then y else b0"
  have step: "better (Some b0) y = Some ?n" by (simp add: better_Some)
  have 1: "?n = b \<or> b \<in> set ys"
    using Cons.prems by (auto simp: word_sless_alt)
  have 2: "?n \<noteq> b \<longrightarrow> sint (LastActivity ?n) < sint (LastActivity b)"
    using Cons.prems by (auto simp: word_sless_alt)
  have 3: "\<forall>s\<in>set ys. s \<noteq> b \<longrightarrow> sint (LastActivity s) < sint (LastActivity b)"
    using Cons.prems by auto
  from Cons.IH[OF 1 2 3] show ?case using step by simp
qed

lemma foldl_better_unique:
  assumes "b \<in> set ys"
    and "\<forall>s\<in>set ys. s \<noteq> b \<longrightarrow> sint (LastActivity s) < sint (LastActivity b)"
  shows "foldl better None ys = Some b"
proof (cases ys)
  case Nil
  with assms show ?thesis by simp
next
  case (Cons y ys')
  have "foldl better (Some y) ys' = Some b"
    using assms Cons by (intro foldl_better_unique_Some) auto
  with Cons show ?thesis by (simp add: better_None)
qed

text \<open>The time of the result depends only on which states compete, not on their order.\<close>

lemma foldl_better_order:
  assumes "set ys = set ys'"
  shows "map_option LastActivity (foldl better None ys)
           = map_option LastActivity (foldl better None ys')"
proof (cases "ys = []")
  case True
  with assms show ?thesis by simp
next
  case False
  with assms have ne: "ys' \<noteq> []" by auto
  from foldl_better_None[OF False] obtain b where
    b: "foldl better None ys = Some b" "b \<in> set ys"
       "\<forall>s\<in>set ys. sint (LastActivity s) \<le> sint (LastActivity b)" by blast
  from foldl_better_None[OF ne] obtain b' where
    b': "foldl better None ys' = Some b'" "b' \<in> set ys'"
        "\<forall>s\<in>set ys'. sint (LastActivity s) \<le> sint (LastActivity b')" by blast
  have "sint (LastActivity b) = sint (LastActivity b')"
    using b b' assms by (metis order_antisym)
  then have "LastActivity b = LastActivity b'" by (rule signed_word_eqI)
  with b(1) b'(1) show ?thesis by simp
qed


lemma set_map_filter: "set (List.map_filter f xs) = {y. \<exists>x\<in>set xs. f x = Some y}"
  by (induction xs) (auto simp: List.map_filter_simps split: option.splits)

lemma map_filter_empty: "List.map_filter f xs = [] \<Longrightarrow> \<forall>x\<in>set xs. f x = None"
  by (induction xs) (auto simp: List.map_filter_simps split: option.splits)

lemma findLatestState_found:
  assumes "filepath_Glob env (files w) (filepath_Join env dataDir ''state.*.json'') = Some ms"
    and "fst (scanStates env ms None w) = Some b"
  shows "fst (findLatestState env dataDir w) = ReadOk b"
  using assms by (cases "scanStates env ms None w") (simp add: findLatestState_def Let_def)

lemma findLatestState_fallback:
  assumes "filepath_Glob env (files w) (filepath_Join env dataDir ''state.*.json'') = Some ms"
    and "fst (scanStates env ms None w) = None"
  shows "findLatestState env dataDir w
           = ReadState env (filepath_Join env dataDir StateFile) (snd (scanStates env ms None w))"
  using assms by (cases "scanStates env ms None w") (simp add: findLatestState_def Let_def)

lemma findLatestState_some:
  assumes glob: "filepath_Glob env (files w) (filepath_Join env dataDir ''state.*.json'') = Some ms"
    and d: "distinct ms" and j: "\<forall>p\<in>set ms. suffix ''.json'' p"
    and ne: "List.map_filter (\<lambda>p. result_state (fst (ReadState env p w))) ms \<noteq> []"
  shows "\<exists>b. fst (findLatestState env dataDir w) = ReadOk b \<and>
            b \<in> set (List.map_filter (\<lambda>p. result_state (fst (ReadState env p w))) ms) \<and>
            (\<forall>s\<in>set (List.map_filter (\<lambda>p. result_state (fst (ReadState env p w))) ms).
                LastActivity s \<le>s LastActivity b)"
proof -
  let ?ys = "List.map_filter (\<lambda>p. result_state (fst (ReadState env p w))) ms"
  have scan: "fst (scanStates env ms None w) = foldl better None ?ys"
    using d j by (intro scanStates_fst) simp_all
  from foldl_better_None[OF ne] obtain b where
    b: "foldl better None ?ys = Some b" "b \<in> set ?ys"
       "\<forall>s\<in>set ?ys. sint (LastActivity s) \<le> sint (LastActivity b)" by blast
  have "fst (findLatestState env dataDir w) = ReadOk b"
    using glob scan b(1) by (intro findLatestState_found) simp_all
  moreover have "\<forall>s\<in>set ?ys. LastActivity s \<le>s LastActivity b"
    using b(3) by (simp add: word_sle_eq)
  ultimately show ?thesis using b(2) by (intro exI[of _ b] conjI)
qed

lemma findLatestState_unique:
  assumes glob: "filepath_Glob env (files w) (filepath_Join env dataDir ''state.*.json'') = Some ms"
    and d: "distinct ms" and j: "\<forall>p\<in>set ms. suffix ''.json'' p"
    and b: "b \<in> set (List.map_filter (\<lambda>p. result_state (fst (ReadState env p w))) ms)"
    and u: "\<forall>s\<in>set (List.map_filter (\<lambda>p. result_state (fst (ReadState env p w))) ms).
              s \<noteq> b \<longrightarrow> LastActivity s <s LastActivity b"
  shows "fst (findLatestState env dataDir w) = ReadOk b"
proof -
  let ?ys = "List.map_filter (\<lambda>p. result_state (fst (ReadState env p w))) ms"
  have scan: "fst (scanStates env ms None w) = foldl better None ?ys"
    using d j by (intro scanStates_fst) simp_all
  have "\<forall>s\<in>set ?ys. s \<noteq> b \<longrightarrow> sint (LastActivity s) < sint (LastActivity b)"
    using u by (simp add: word_sless_alt)
  with b have "foldl better None ?ys = Some b" by (rule foldl_better_unique)
  with glob scan show ?thesis by (intro findLatestState_found) simp_all
qed

lemma scanStates_order:
  assumes d: "distinct ms" and j: "\<forall>p\<in>set ms. suffix ''.json'' p"
    and d': "distinct ms'" and s: "set ms' = set ms"
  shows "map_option LastActivity (fst (scanStates env ms' None w))
           = map_option LastActivity (fst (scanStates env ms None w))"
proof -
  let ?f = "\<lambda>p. result_state (fst (ReadState env p w))"
  have 1: "fst (scanStates env ms None w) = foldl better None (List.map_filter ?f ms)"
    using d j by (intro scanStates_fst) simp_all
  have 2: "fst (scanStates env ms' None w) = foldl better None (List.map_filter ?f ms')"
    using d' j s by (intro scanStates_fst) simp_all
  have "set (List.map_filter ?f ms') = set (List.map_filter ?f ms)"
    unfolding set_map_filter s ..
  then show ?thesis unfolding 1 2 by (rule foldl_better_order)
qed

lemma findLatestState_none:
  assumes glob: "filepath_Glob env (files w) (filepath_Join env dataDir ''state.*.json'') = Some ms"
    and d: "distinct ms" and j: "\<forall>p\<in>set ms. suffix ''.json'' p"
    and e: "List.map_filter (\<lambda>p. result_state (fst (ReadState env p w))) ms = []"
  shows "fst (findLatestState env dataDir w)
           = fst (ReadState env (filepath_Join env dataDir StateFile) w)"
proof -
  have "fst (scanStates env ms None w)
          = foldl better None (List.map_filter (\<lambda>p. result_state (fst (ReadState env p w))) ms)"
    using d j by (intro scanStates_fst) simp_all
  then have n: "fst (scanStates env ms None w) = None" unfolding e by simp
  have "\<forall>p\<in>set ms. result_state (fst (ReadState env p w)) = None"
    using e by (rule map_filter_empty)
  then have "files (snd (scanStates env ms None w)) = files w"
    by (rule scanStates_all_failed)
  then have "files (snd (scanStates env ms None w)) (filepath_Join env dataDir StateFile)
               = files w (filepath_Join env dataDir StateFile)" by simp
  then have "fst (ReadState env (filepath_Join env dataDir StateFile)
                     (snd (scanStates env ms None w)))
               = fst (ReadState env (filepath_Join env dataDir StateFile) w)"
    by (rule ReadState_result_files)
  then show ?thesis unfolding findLatestState_fallback[OF glob n] .
qed



text \<open>When \<open>filepath.Glob\<close> rejects the pattern the error is returned and no file is read.\<close>

lemma findLatestState_glob_error:
  "filepath_Glob env (files w) (filepath_Join env dataDir ''state.*.json'') = None \<Longrightarrow>
   findLatestState env dataDir w = (ReadFailed GlobStateFiles, w)"
  by (simp add: findLatestState_def Let_def)

text \<open>
  C5 (multi-session resolution).  Let \<open>filepath.Glob\<close> return the matches \<open>ms\<close> of
  \<open><dataDir>/state.*.json\<close> (distinct paths that end in \<open>.json\<close>), in whatever order,
  and let \<open>ys\<close> be the states that \<open>ReadState\<close> yields for them, unreadable files
  left out.  If some file yields a state, \<open>findLatestState\<close> returns, with no error, one
  of the states of \<open>ys\<close> whose \<open>LastActivity\<close> is greatest (signed comparison); a state
  whose time is strictly above all the others is the one returned; and scanning the
  same files in any other order gives the same greatest time.  If no file yields a
  state, the result is that of \<open>ReadState\<close> on \<open><dataDir>/state.json\<close>.
\<close>

theorem findLatestState_greatest:
  "filepath_Glob env (files w) (filepath_Join env dataDir ''state.*.json'') = Some ms \<and>
   distinct ms \<and> (\<forall>p\<in>set ms. suffix ''.json'' p) \<longrightarrow>
   (let ys = List.map_filter (\<lambda>p. result_state (fst (ReadState env p w))) ms in
      (ys \<noteq> [] \<longrightarrow>
         (\<exists>b. fst (findLatestState env dataDir w) = ReadOk b \<and> b \<in> set ys \<and>
              (\<forall>s\<in>set ys. LastActivity s \<le>s LastActivity b))) \<and>
      (\<forall>b\<in>set ys. (\<forall>s\<in>set ys. s \<noteq> b \<longrightarrow> LastActivity s <s LastActivity b) \<longrightarrow>
         fst (findLatestState env dataDir w) = ReadOk b) \<and>
      (\<forall>ms'. distinct ms' \<and> set ms' = set ms \<longrightarrow>
         map_option LastActivity (fst (scanStates env ms' None w))
           = map_option LastActivity (fst (scanStates env ms None w))) \<and>
      (ys = [] \<longrightarrow>
         fst (findLatestState env dataDir w)
           = fst (ReadState env (filepath_Join env dataDir StateFile) w)))"
  unfolding Let_def
proof (intro impI conjI ballI allI)
  assume a: "filepath_Glob env (files w) (filepath_Join env dataDir ''state.*.json'') = Some ms \<and>
   distinct ms \<and> (\<forall>p\<in>set ms. suffix ''.json'' p)"
  assume "List.map_filter (\<lambda>p. result_state (fst (ReadState env p w))) ms \<noteq> []"
  with a show "\<exists>b. fst (findLatestState env dataDir w) = ReadOk b \<and>
            b \<in> set (List.map_filter (\<lambda>p. result_state (fst (ReadState env p w))) ms) \<and>
            (\<forall>s\<in>set (List.map_filter (\<lambda>p. result_state (fst (ReadState env p w))) ms).
                LastActivity s \<le>s LastActivity b)"
    by (intro findLatestState_some) simp_all
next
  fix b
  assume a: "filepath_Glob env (files w) (filepath_Join env dataDir ''state.*.json'') = Some ms \<and>
   distinct ms \<and> (\<forall>p\<in>set ms. suffix ''.json'' p)"
  assume "b \<in> set (List.map_filter (\<lambda>p. result_state (fst (ReadState env p w))) ms)"
    and "\<forall>s\<in>set (List.map_filter (\<lambda>p. result_state (fst (ReadState env p w))) ms).
            s \<noteq> b \<longrightarrow> LastActivity s <s LastActivity b"
  with a show "fst (findLatestState env dataDir w) = ReadOk b"
    by (intro findLatestState_unique[where ms = ms]) simp_all
next
  fix ms'
  assume a: "filepath_Glob env (files w) (filepath_Join env dataDir ''state.*.json'') = Some ms \<and>
   distinct ms \<and> (\<forall>p\<in>set ms. suffix ''.json'' p)"
  assume "distinct ms' \<and> set ms' = set ms"
  with a show "map_option LastActivity (fst (scanStates env ms' None w))
           = map_option LastActivity (fst (scanStates env ms None w))"
    by (intro scanStates_order) simp_all
next
  assume a: "filepath_Glob env (files w) (filepath_Join env dataDir ''state.*.json'') = Some ms \<and>
   distinct ms \<and> (\<forall>p\<in>set ms. suffix ''.json'' p)"
  assume "List.map_filter (\<lambda>p. result_state (fst (ReadState env p w))) ms = []"
  with a show "fst (findLatestState env dataDir w)
           = fst (ReadState env (filepath_Join env dataDir StateFile) w)"
    by (intro findLatestState_none[where ms = ms]) simp_all
qed

lemma three_world_reads:
  "fst (ReadState sample_session_env ''/d/state.a.json'' three_world) = ReadOk state_a"
  "fst (ReadState sample_session_env ''/d/state.b.json'' three_world) = ReadOk state_b"
  "fst (ReadState sample_session_env ''/d/state.c.json'' three_world) = ReadOk state_c"
  by (simp_all add: ReadState_unfold three_world_def UnmarshalState_def Unmarshal_def
      sample_session_env_def sample_json_parse_def findField_def stateFields_def
      setStateField_def decodeInt64_def decodeString_def zeroState_def
      state_a_def state_b_def state_c_def CurrentVersion_def Let_def)



theorem findLatestState_greatest_witness:
  "filepath_Glob sample_session_env (files three_world)
       (filepath_Join sample_session_env ''/d'' ''state.*.json'')
     = Some [''/d/state.a.json'', ''/d/state.b.json'', ''/d/state.c.json''] \<and>
   distinct [''/d/state.a.json'', ''/d/state.b.json'', ''/d/state.c.json''] \<and>
   suffix ''.json'' ''/d/state.a.json'' \<and> suffix ''.json'' ''/d/state.b.json'' \<and>
   suffix ''.json'' ''/d/state.c.json'' \<and>
   List.map_filter (\<lambda>p. result_state (fst (ReadState sample_session_env p three_world)))
       [''/d/state.a.json'', ''/d/state.b.json'', ''/d/state.c.json'']
     = [state_a, state_b, state_c] \<and>
   LastActivity state_a <s LastActivity state_b \<and>
   LastActivity state_c <s LastActivity state_b \<and>
   fst (findLatestState sample_session_env ''/d'' three_world) = ReadOk state_b \<and>
   filepath_Glob sample_session_env (files future_world)
       (filepath_Join sample_session_env ''/d'' ''state.*.json'') = Some [] \<and>
   fst (findLatestState sample_session_env ''/d'' future_world)
     = fst (ReadState sample_session_env (filepath_Join sample_session_env ''/d'' StateFile)
              future_world)"
proof -
  let ?ms = "[''/d/state.a.json'', ''/d/state.b.json'', ''/d/state.c.json'']"
  have g: "filepath_Glob sample_session_env (files three_world)
             (filepath_Join sample_session_env ''/d'' ''state.*.json'') = Some ?ms"
    by (simp add: sample_session_env_def three_world_def)
  have d: "distinct ?ms" by simp
  have j: "\<forall>p\<in>set ?ms. suffix ''.json'' p" by (simp add: suffix_to_prefix)
  have ys: "List.map_filter (\<lambda>p. result_state (fst (ReadState sample_session_env p three_world)))
              ?ms = [state_a, state_b, state_c]"
    by (simp add: List.map_filter_simps three_world_reads)
  have la: "LastActivity state_a <s LastActivity state_b"
    and lc: "LastActivity state_c <s LastActivity state_b"
    by (simp_all add: state_a_def state_b_def state_c_def word_sless_alt)
  have u: "\<forall>s\<in>set [state_a, state_b, state_c].
             s \<noteq> state_b \<longrightarrow> LastActivity s <s LastActivity state_b"
    using la lc by simp
  note t = findLatestState_greatest[of sample_session_env three_world "''/d''" ?ms,
      unfolded Let_def ys]
  have r: "fst (findLatestState sample_session_env ''/d'' three_world) = ReadOk state_b"
    using t g d j u by simp
  have g0: "filepath_Glob sample_session_env (files future_world)
             (filepath_Join sample_session_env ''/d'' ''state.*.json'') = Some []"
    by (simp add: sample_session_env_def future_world_def)
  note t0 = findLatestState_greatest[of sample_session_env future_world "''/d''" "[]",
      unfolded Let_def]
  have r0: "fst (findLatestState sample_session_env ''/d'' future_world)
     = fst (ReadState sample_session_env (filepath_Join sample_session_env ''/d'' StateFile)
              future_world)"
    using t0 g0 by (simp add: List.map_filter_simps)
  have j': "suffix ''.json'' ''/d/state.a.json''" "suffix ''.json'' ''/d/state.b.json''"
    "suffix ''.json'' ''/d/state.c.json''"
    using j by simp_all
  from g d j' ys la lc r g0 r0 show ?thesis by (intro conjI)
qed



subsection \<open>Properties of the presentation engine\<close>




lemma isIdle_iff:
  "isIdle env cfg lastActivity \<longleftrightarrow>
     0 < sint (IdleMinutes cfg) \<and>
     sint (IdleMinutes cfg * 60) < sint (time_Now_Unix env - lastActivity)"
  by (simp add: isIdle_def word_sless_alt)

text \<open>
  Where the 64-bit arithmetic does not overflow (times from the epoch on and an idle
  threshold below \<open>2^56\<close> minutes, say) the test of \<open>isIdle\<close> is the comparison of the
  integers themselves.
\<close>

lemma isIdle_integers:
  assumes "0 \<le> sint lastActivity" and "0 \<le> sint (time_Now_Unix env)"
    and "sint (IdleMinutes cfg) < 2 ^ 56"
  shows "isIdle env cfg lastActivity \<longleftrightarrow>
           0 < sint (IdleMinutes cfg) \<and>
           sint (IdleMinutes cfg) * 60 < sint (time_Now_Unix env) - sint lastActivity"
proof -
  have b1: "sint lastActivity < 2 ^ 63" "sint (time_Now_Unix env) < 2 ^ 63"
    using sint_lt[of lastActivity] sint_lt[of "time_Now_Unix env"] by simp_all
  have b2: "- (2 ^ 63) \<le> sint (IdleMinutes cfg)"
    using sint_ge[of "IdleMinutes cfg"] by simp
  have d: "sint (time_Now_Unix env - lastActivity) = sint (time_Now_Unix env) - sint lastActivity"
    using assms(1,2) b1
    by (simp add: sint_word_ariths signed_take_bit_int_eq_self)
  have m: "0 < sint (IdleMinutes cfg) \<Longrightarrow>
           sint (IdleMinutes cfg * 60) = sint (IdleMinutes cfg) * 60"
    using assms(3) by (simp add: sint_word_ariths signed_take_bit_int_eq_self)
  show ?thesis
    unfolding isIdle_iff using d m by auto
qed

text \<open>
  C6 (idle semantics).  For a state that is not stopped and whose working directory
  matches no ignore pattern: when \<open>IdleMinutes > 0\<close> and
  \<open>now - lastActivity > IdleMinutes*60\<close> (the comparison the code makes, in \<open>int64\<close>),
  the result is \<open>nil\<close> under idle mode \<open>clear\<close> or unset, and under \<open>idle_text\<close> it is
  the static payload made of the idle strings, the session start and the large image,
  with no buttons; when \<open>now - lastActivity \<le> IdleMinutes*60\<close> or \<open>IdleMinutes\<close> is 0
  the result is not \<open>nil\<close>.
\<close>

theorem BuildActivity_idle_semantics:
  "\<not> Stopped s \<and> \<not> matchesIgnorePattern env (IgnoredPatterns cfg) (CWD s) \<longrightarrow>
   ((0 <s IdleMinutes cfg \<and> IdleMinutes cfg * 60 <s time_Now_Unix env - LastActivity s \<and>
       (IdleMode cfg = ''clear'' \<or> IdleMode cfg = [])
       \<longrightarrow> BuildActivityWithData env s cfg cost totalTokens model jsonl = None) \<and>
    (0 <s IdleMinutes cfg \<and> IdleMinutes cfg * 60 <s time_Now_Unix env - LastActivity s \<and>
       IdleMode cfg = ''idle_text''
       \<longrightarrow> BuildActivityWithData env s cfg cost totalTokens model jsonl
             = Some \<lparr>Details = IdleDetails cfg, State' = IdleState cfg,
                     aTimestamps = \<lparr>Start = SessionStart s\<rparr>,
                     aAssets = \<lparr>LargeImage = cfgLargeImage cfg, LargeText = cfgLargeText cfg,
                                SmallImage = [], SmallText = []\<rparr>,
                     Buttons = []\<rparr>) \<and>
    (time_Now_Unix env - LastActivity s \<le>s IdleMinutes cfg * 60 \<or> IdleMinutes cfg = 0
       \<longrightarrow> BuildActivityWithData env s cfg cost totalTokens model jsonl \<noteq> None))"
proof (intro impI conjI)
  assume a: "\<not> Stopped s \<and> \<not> matchesIgnorePattern env (IgnoredPatterns cfg) (CWD s)"
  assume "0 <s IdleMinutes cfg \<and> IdleMinutes cfg * 60 <s time_Now_Unix env - LastActivity s \<and>
       (IdleMode cfg = ''clear'' \<or> IdleMode cfg = [])"
  then have "isIdle env cfg (LastActivity s)" "buildIdleActivity s cfg = None"
    by (auto simp: isIdle_def buildIdleActivity_def)
  with a show "BuildActivityWithData env s cfg cost totalTokens model jsonl = None"
    by (simp add: BuildActivityWithData_def)
next
  assume a: "\<not> Stopped s \<and> \<not> matchesIgnorePattern env (IgnoredPatterns cfg) (CWD s)"
  assume "0 <s IdleMinutes cfg \<and> IdleMinutes cfg * 60 <s time_Now_Unix env - LastActivity s \<and>
       IdleMode cfg = ''idle_text''"
  then have "isIdle env cfg (LastActivity s)" "IdleMode cfg = ''idle_text''"
    by (simp_all add: isIdle_def)
  with a show "BuildActivityWithData env s cfg cost totalTokens model jsonl
             = Some \<lparr>Details = IdleDetails cfg, State' = IdleState cfg,
                     aTimestamps = \<lparr>Start = SessionStart s\<rparr>,
                     aAssets = \<lparr>LargeImage = cfgLargeImage cfg, LargeText = cfgLargeText cfg,
                                SmallImage = [], SmallText = []\<rparr>,
                     Buttons = []\<rparr>"
    by (simp add: BuildActivityWithData_def buildIdleActivity_def)
next
  assume a: "\<not> Stopped s \<and> \<not> matchesIgnorePattern env (IgnoredPatterns cfg) (CWD s)"
  assume "time_Now_Unix env - LastActivity s \<le>s IdleMinutes cfg * 60 \<or> IdleMinutes cfg = 0"
  then have "\<not> isIdle env cfg (LastActivity s)"
    by (auto simp: isIdle_def word_sless_alt word_sle_eq)
  with a show "BuildActivityWithData env s cfg cost totalTokens model jsonl \<noteq> None"
    by (simp add: BuildActivityWithData_def Let_def)
qed


theorem BuildActivity_idle_semantics_witness:
  "\<not> Stopped idle_state \<and>
   \<not> matchesIgnorePattern sample_present_env (IgnoredPatterns sample_config) (CWD idle_state) \<and>
   0 <s IdleMinutes sample_config \<and>
   IdleMinutes sample_config * 60 <s time_Now_Unix sample_present_env - LastActivity idle_state \<and>
   IdleMode sample_config = [] \<and>
   BuildActivityWithData sample_present_env idle_state sample_config 0 0 [] None = None \<and>
   BuildActivityWithData sample_present_env idle_state
       (sample_config\<lparr>IdleMode := ''idle_text''\<rparr>) 0 0 [] None
     = Some \<lparr>Details = ''Away from keyboard'', State' = ''Idle'',
             aTimestamps = \<lparr>Start = 1707900000\<rparr>,
             aAssets = \<lparr>LargeImage = ''claude'', LargeText = ''Claude Code'',
                        SmallImage = [], SmallText = []\<rparr>,
             Buttons = []\<rparr> \<and>
   \<not> Stopped recent_state \<and>
   \<not> matchesIgnorePattern sample_present_env (IgnoredPatterns sample_config) (CWD recent_state) \<and>
   time_Now_Unix sample_present_env - LastActivity recent_state
     \<le>s IdleMinutes sample_config * 60 \<and>
   BuildActivityWithData sample_present_env recent_state sample_config 0 0 [] None \<noteq> None"
proof -
  let ?text = "sample_config\<lparr>IdleMode := ''idle_text''\<rparr>"
  have s1: "\<not> Stopped idle_state" "\<not> Stopped recent_state"
    by (simp_all add: idle_state_def recent_state_def zeroState_def)
  have m1: "\<not> matchesIgnorePattern sample_present_env (IgnoredPatterns sample_config)
                (CWD idle_state)"
    and m2: "\<not> matchesIgnorePattern sample_present_env (IgnoredPatterns sample_config)
                (CWD recent_state)"
    and m3: "\<not> matchesIgnorePattern sample_present_env (IgnoredPatterns ?text) (CWD idle_state)"
    by (simp_all add: sample_present_env_def sample_config_def idle_state_def recent_state_def)
  have i0: "0 <s IdleMinutes sample_config" "0 <s IdleMinutes ?text"
    by (simp_all add: sample_config_def word_sless_alt)
  have i1: "IdleMinutes sample_config * 60
              <s time_Now_Unix sample_present_env - LastActivity idle_state"
    and i2: "IdleMinutes ?text * 60
              <s time_Now_Unix sample_present_env - LastActivity idle_state"
    by (simp_all add: sample_config_def sample_present_env_def idle_state_def word_sless_alt)
  have i3: "time_Now_Unix sample_present_env - LastActivity recent_state
              \<le>s IdleMinutes sample_config * 60"
    by (simp add: sample_config_def sample_present_env_def recent_state_def idle_state_def
        word_sle_eq)
  have md: "IdleMode sample_config = []" "IdleMode ?text = ''idle_text''"
    by (simp_all add: sample_config_def)
  note t1 = BuildActivity_idle_semantics
      [of idle_state sample_present_env sample_config 0 0 "[]" None]
  note t2 = BuildActivity_idle_semantics
      [of idle_state sample_present_env ?text 0 0 "[]" None]
  note t3 = BuildActivity_idle_semantics
      [of recent_state sample_present_env sample_config 0 0 "[]" None]
  have r1: "BuildActivityWithData sample_present_env idle_state sample_config 0 0 [] None = None"
    using t1 s1(1) m1 i0(1) i1 md(1) by blast
  have "BuildActivityWithData sample_present_env idle_state ?text 0 0 [] None
          = Some \<lparr>Details = IdleDetails ?text, State' = IdleState ?text,
                  aTimestamps = \<lparr>Start = SessionStart idle_state\<rparr>,
                  aAssets = \<lparr>LargeImage = cfgLargeImage ?text, LargeText = cfgLargeText ?text,
                             SmallImage = [], SmallText = []\<rparr>,
                  Buttons = []\<rparr>"
    using t2 s1(1) m3 i0(2) i2 md(2) by blast
  then have r2: "BuildActivityWithData sample_present_env idle_state ?text 0 0 [] None
     = Some \<lparr>Details = ''Away from keyboard'', State' = ''Idle'',
             aTimestamps = \<lparr>Start = 1707900000\<rparr>,
             aAssets = \<lparr>LargeImage = ''claude'', LargeText = ''Claude Code'',
                        SmallImage = [], SmallText = []\<rparr>,
             Buttons = []\<rparr>"
    by (simp add: sample_config_def idle_state_def)
  have r3: "BuildActivityWithData sample_present_env recent_state sample_config 0 0 [] None
              \<noteq> None"
    using t3 s1(2) m2 i3 by blast
  from s1 m1 m2 i0(1) i1 i3 md(1) r1 r2 r3 show ?thesis by (intro conjI)
qed

subsection \<open>Properties of the template engine\<close>


lemma replaceFormatVars_no_brace:
  "CHR ''{'' \<notin> set s \<Longrightarrow> replaceFormatVars f s = s"
  by (induction s) auto

lemma ReplaceAll_no_first:
  "c \<notin> set s \<Longrightarrow> ReplaceAll s (c # r) new = s"
proof (induction s)
  case Nil
  then show ?case by (simp add: ReplaceAll.simps)
next
  case (Cons x xs)
  then have "ReplaceAll xs (c # r) new = xs" by simp
  moreover have "\<not> prefix (c # r) (x # xs)" using Cons.prems by auto
  ultimately show ?case using Cons.prems by (subst ReplaceAll.simps) simp
qed

text \<open>
  What the truncation does: a line of at most 128 bytes is returned as it is; a longer
  one is cut to its first 127 bytes and the ellipsis is appended, which gives 130 bytes.
\<close>

lemma applyTemplate_short:
  "length (replacePasses env tmpl vars) \<le> discordMaxLen \<Longrightarrow>
   applyTemplate env tmpl vars = replacePasses env tmpl vars"
  by (simp add: applyTemplate_def Let_def)

lemma applyTemplate_long:
  assumes "length (replacePasses env tmpl vars) > discordMaxLen"
  shows "applyTemplate env tmpl vars = take 127 (replacePasses env tmpl vars) @ ellipsis"
    and "length (applyTemplate env tmpl vars) = 130"
    and "suffix ellipsis (applyTemplate env tmpl vars)"
  using assms by (simp_all add: applyTemplate_def Let_def discordMaxLen_def ellipsis_def suffix_def)


lemma ReplaceAll_no_brace: "CHR ''{'' \<notin> set s \<Longrightarrow> ReplaceAll s (CHR ''{'' # r) new = s"
  by (rule ReplaceAll_no_first)

text \<open>A template with no brace in it is left as it is by all the replacements.\<close>

lemma replacePasses_no_brace:
  assumes "CHR ''{'' \<notin> set tmpl"
  shows "replacePasses env tmpl vars = tmpl"
proof -
  have 0: "replaceFormatVars (\<lambda>name format. resolveVar env name format vars) tmpl = tmpl"
    using assms by (rule replaceFormatVars_no_brace)
  have 1: "\<And>r new. ReplaceAll tmpl (CHR ''{'' # r) new = tmpl"
    using assms by (rule ReplaceAll_no_brace)
  show ?thesis
    unfolding replacePasses_def Let_def 0 1 ..
qed


lemma wide_line_length: "length wide_line = 150"
  by (simp add: wide_line_def length_concat sum_list_replicate)

lemma wide_line_no_brace: "CHR ''{'' \<notin> set wide_line"
  by (auto simp: wide_line_def)

lemma wide_line_runes: "utf8_RuneCount wide_line = 50"
proof -
  have "\<And>n. length (filter (\<lambda>c. (of_char c :: nat) div 64 \<noteq> 2)
                 (concat (replicate n [CHR 0xE6, CHR 0x97, CHR 0xA5]))) = n"
    subgoal for n by (induction n) simp_all
    done
  then show ?thesis by (simp add: utf8_RuneCount_def wide_line_def)
qed


lemma concat_replicate_split:
  "concat (replicate (m + Suc n) x) = concat (replicate m x) @ x @ concat (replicate n x)"
  by (simp only: replicate_add replicate_Suc concat_append concat.simps)

lemma take_append_one: "length A = k \<Longrightarrow> take (Suc k) (A @ c # rest) = A @ [c]"
  by simp

lemma wide_line_cut:
  "take 127 wide_line = concat (replicate 42 [CHR 0xE6, CHR 0x97, CHR 0xA5]) @ [CHR 0xE6]"
proof -
  let ?x = "[CHR 0xE6, CHR 0x97, CHR 0xA5]"
  have e: "(50 :: nat) = 42 + Suc 7" by simp
  have w: "wide_line = concat (replicate 42 ?x) @ ?x @ concat (replicate 7 ?x)"
    unfolding wide_line_def e by (rule concat_replicate_split)
  have l: "length (concat (replicate 42 ?x)) = 126"
    by (simp add: length_concat sum_list_replicate)
  have s: "(127 :: nat) = Suc 126" by simp
  have "take (Suc 126) (concat (replicate 42 ?x) @ CHR 0xE6 # ([CHR 0x97, CHR 0xA5] @ concat (replicate 7 ?x)))
          = concat (replicate 42 ?x) @ [CHR 0xE6]"
    using l by (rule take_append_one)
  then show ?thesis unfolding s by (subst w) (simp only: append_Cons append_Nil)
qed

text \<open>
  C7 (output line truncation), evaluated where the code departs from it.  The line of
  fifty three-byte characters has 50 characters, under the maximum of 128, but 150
  bytes.  \<open>applyTemplate\<close> measures bytes: it keeps the first 127 bytes, which end with
  the first byte of the 43rd character, and appends the ellipsis.  The line is not
  returned as it is, and what is returned has 130 bytes.
\<close>

theorem applyTemplate_wide_line:
  "length wide_line = 150 \<and> utf8_RuneCount wide_line = 50 \<and>
   replacePasses env wide_line vars = wide_line \<and>
   applyTemplate env wide_line vars
     = concat (replicate 42 [CHR 0xE6, CHR 0x97, CHR 0xA5]) @ [CHR 0xE6] @ ellipsis \<and>
   length (applyTemplate env wide_line vars) = 130 \<and>
   applyTemplate env wide_line vars \<noteq> wide_line"
proof -
  have p: "replacePasses env wide_line vars = wide_line"
    using wide_line_no_brace by (rule replacePasses_no_brace)
  have g: "length (replacePasses env wide_line vars) > discordMaxLen"
    by (simp add: p wide_line_length discordMaxLen_def)
  have a: "applyTemplate env wide_line vars
             = concat (replicate 42 [CHR 0xE6, CHR 0x97, CHR 0xA5]) @ [CHR 0xE6] @ ellipsis"
    using applyTemplate_long(1)[OF g] by (simp add: p wide_line_cut)
  have l: "length (applyTemplate env wide_line vars) = 130"
    using g by (rule applyTemplate_long(2))
  have "length (applyTemplate env wide_line vars) \<noteq> length wide_line"
    by (simp add: l wide_line_length)
  then have n: "applyTemplate env wide_line vars \<noteq> wide_line" by auto
  from wide_line_length wide_line_runes p a l n show ?thesis by (intro conjI)
qed

end
